theory Spec2Isabelle
  imports Main "HOL-Library.AList" "HOL-Library.Product_Lexorder" "HOL-Library.List_Lexorder"
begin

section \<open>Python strings\<close>

text \<open>
  A Python \<open>str\<close> is a sequence of Unicode code points: \<open>len\<close>, slicing and
  \<open>startswith\<close> count code points, not bytes. A code point is a \<open>nat\<close> here, and
  \<open>lit\<close> reads an ASCII literal.
\<close>

type_synonym pystr = "nat list"

definition lit :: "string \<Rightarrow> pystr" where
  "lit s = map of_char s"

text \<open>
  The character properties that the interpreter takes from the Unicode database are exact
  here for ASCII; for the other code points they are a parameter of every function that
  depends on them. Case conversion of a string with a non-ASCII code point may change its
  length and depends on context, so it is a function on strings.
\<close>

record unicode_db =
  db_isdecimal :: "nat \<Rightarrow> bool"
  db_isalnum :: "nat \<Rightarrow> bool"
  db_upper :: "pystr \<Rightarrow> pystr"
  db_lower :: "pystr \<Rightarrow> pystr"

definition ascii_db :: unicode_db where
  "ascii_db = \<lparr> db_isdecimal = (\<lambda>c. False), db_isalnum = (\<lambda>c. False),
                db_upper = (\<lambda>s. s), db_lower = (\<lambda>s. s) \<rparr>"

text \<open>\<open>str.isspace\<close> on one code point; also \<open>\s\<close> of \<open>re\<close> and what \<open>strip\<close> removes.\<close>

definition isspace :: "nat \<Rightarrow> bool" where
  "isspace c = ((9 \<le> c \<and> c \<le> 13) \<or> (28 \<le> c \<and> c \<le> 32) \<or> c = 133 \<or> c = 160 \<or> c = 5760
     \<or> (8192 \<le> c \<and> c \<le> 8202) \<or> c = 8232 \<or> c = 8233 \<or> c = 8239 \<or> c = 8287 \<or> c = 12288)"

definition isdigit :: "unicode_db \<Rightarrow> nat \<Rightarrow> bool" where
  "isdigit U c = (if c < 128 then 48 \<le> c \<and> c \<le> 57 else db_isdecimal U c)"

definition isalpha_ascii :: "nat \<Rightarrow> bool" where
  "isalpha_ascii c = ((65 \<le> c \<and> c \<le> 90) \<or> (97 \<le> c \<and> c \<le> 122))"

definition isword :: "unicode_db \<Rightarrow> nat \<Rightarrow> bool" where
  "isword U c = (if c < 128 then isalpha_ascii c \<or> (48 \<le> c \<and> c \<le> 57) \<or> c = 95
                 else db_isalnum U c)"

definition upper :: "unicode_db \<Rightarrow> pystr \<Rightarrow> pystr" where
  "upper U s = (if list_all (\<lambda>c. c < 128) s
                then map (\<lambda>c. if 97 \<le> c \<and> c \<le> 122 then c - 32 else c) s
                else db_upper U s)"

definition lower :: "unicode_db \<Rightarrow> pystr \<Rightarrow> pystr" where
  "lower U s = (if list_all (\<lambda>c. c < 128) s
                then map (\<lambda>c. if 65 \<le> c \<and> c \<le> 90 then c + 32 else c) s
                else db_lower U s)"

definition strip :: "pystr \<Rightarrow> pystr" where
  "strip s = rev (dropWhile isspace (rev (dropWhile isspace s)))"

text \<open>\<open>s.split(sep)\<close> for a one-character separator, and \<open>re.split\<close> on a character class.\<close>

fun split_on :: "(nat \<Rightarrow> bool) \<Rightarrow> pystr \<Rightarrow> pystr list" where
  "split_on d [] = [[]]"
| "split_on d (c # cs) =
     (if d c then [] # split_on d cs
      else (case split_on d cs of [] \<Rightarrow> [[c]] | w # ws \<Rightarrow> (c # w) # ws))"

definition split_nl :: "pystr \<Rightarrow> pystr list" where
  "split_nl s = split_on (\<lambda>c. c = 10) s"

text \<open>\<open>s.split()\<close>: runs of whitespace separate, no empty word is returned.\<close>

definition split_ws :: "pystr \<Rightarrow> pystr list" where
  "split_ws s = filter (\<lambda>w. w \<noteq> []) (split_on isspace s)"

fun join :: "pystr \<Rightarrow> pystr list \<Rightarrow> pystr" where
  "join sep [] = []"
| "join sep [x] = x"
| "join sep (x # y # ys) = x @ sep @ join sep (y # ys)"

definition join_nl :: "pystr list \<Rightarrow> pystr" where
  "join_nl ls = join [10] ls"

definition startswith :: "pystr \<Rightarrow> pystr \<Rightarrow> bool" where
  "startswith s p = (take (length p) s = p)"

definition endswith :: "pystr \<Rightarrow> pystr \<Rightarrow> bool" where
  "endswith s p = (length p \<le> length s \<and> drop (length s - length p) s = p)"

text \<open>\<open>sub in s\<close>\<close>

fun contains :: "pystr \<Rightarrow> pystr \<Rightarrow> bool" where
  "contains [] sub = (sub = [])"
| "contains (c # cs) sub = (startswith (c # cs) sub \<or> contains cs sub)"

text \<open>\<open>s.count(c)\<close> for a one-character \<open>c\<close>\<close>

definition count_char :: "pystr \<Rightarrow> nat \<Rightarrow> nat" where
  "count_char s c = length (filter (\<lambda>x. x = c) s)"

text \<open>Truth value of a variable that holds \<open>None\<close> or a string.\<close>

definition truthy :: "pystr option \<Rightarrow> bool" where
  "truthy v = (case v of None \<Rightarrow> False | Some s \<Rightarrow> s \<noteq> [])"

text \<open>\<open>v or ''\<close>\<close>

definition or_empty :: "pystr option \<Rightarrow> pystr" where
  "or_empty v = (case v of None \<Rightarrow> [] | Some s \<Rightarrow> s)"

section \<open>Subscripts that can raise\<close>

text \<open>\<open>k in d\<close>\<close>

definition has_key :: "('k \<times> 'v) list \<Rightarrow> 'k \<Rightarrow> bool" where
  "has_key d k = (map_of d k \<noteq> None)"

text \<open>The exceptions that a subscript or an attribute access of the parser could raise.\<close>

datatype exc = AttributeError | IndexError | KeyError

text \<open>\<open>xs[i]\<close> on a list, for an integer \<open>i\<close> of either sign\<close>

definition index :: "'a list \<Rightarrow> int \<Rightarrow> exc + 'a" where
  "index xs i =
     (if 0 \<le> i \<and> i < int (length xs) then Inr (xs ! nat i)
      else if i < 0 \<and> - int (length xs) \<le> i then Inr (xs ! nat (int (length xs) + i))
      else Inl IndexError)"

text \<open>\<open>d[k]\<close> on a dictionary\<close>

definition getitem :: "('k \<times> 'v) list \<Rightarrow> 'k \<Rightarrow> exc + 'v" where
  "getitem d k = (case map_of d k of Some v \<Rightarrow> Inr v | None \<Rightarrow> Inl KeyError)"

text \<open>\<open>xs[a:b]\<close> for integers \<open>a\<close> and \<open>b\<close>\<close>

definition slice :: "'a list \<Rightarrow> int \<Rightarrow> int \<Rightarrow> 'a list" where
  "slice xs a b =
     (let n = int (length xs);
          clamp = (\<lambda>i. if i < 0 then max 0 (n + i) else min n i)
      in take (nat (clamp b) - nat (clamp a)) (drop (nat (clamp a)) xs))"

section \<open>The regular expressions of the parser\<close>

text \<open>
  Every pattern of the source is a sequence of greedy repetitions \<open>[class]{lo,hi}\<close> of a
  character class (a literal is a class of one character repeated \<open>{1,1}\<close>). \<open>ends p s\<close>
  lists the lengths of the matches of \<open>p\<close> at the start of \<open>s\<close> in the order in which the
  backtracking matcher of \<open>re\<close> finds them: the longest repetition first.
\<close>

type_synonym re_item = "(nat \<Rightarrow> bool) \<times> nat \<times> nat option"

definition run_len :: "(nat \<Rightarrow> bool) \<Rightarrow> nat option \<Rightarrow> pystr \<Rightarrow> nat" where
  "run_len cls hi s =
     (let r = length (takeWhile cls s) in case hi of None \<Rightarrow> r | Some h \<Rightarrow> min h r)"

primrec ends :: "re_item list \<Rightarrow> pystr \<Rightarrow> nat list" where
  "ends [] s = [0]"
| "ends (it # p) s =
     (case it of (cls, lo, hi) \<Rightarrow>
        concat (map (\<lambda>n. map (\<lambda>m. n + m) (ends p (drop n s)))
                    (rev [lo ..< Suc (run_len cls hi s)])))"

definition match_at :: "re_item list \<Rightarrow> pystr \<Rightarrow> nat option" where
  "match_at p s = (case ends p s of [] \<Rightarrow> None | n # _ \<Rightarrow> Some n)"

text \<open>\<open>re.search(p, s)\<close>: the leftmost start that matches; the result is \<open>group(0)\<close>.\<close>

fun re_search :: "re_item list \<Rightarrow> pystr \<Rightarrow> pystr option" where
  "re_search p [] = (case match_at p [] of None \<Rightarrow> None | Some n \<Rightarrow> Some [])"
| "re_search p (c # cs) =
     (case match_at p (c # cs) of
        None \<Rightarrow> re_search p cs
      | Some n \<Rightarrow> Some (take n (c # cs)))"

text \<open>
  \<open>re.search('^(p)$', s)\<close>: \<open>^\<close> holds at the start of the string only, \<open>$\<close> at its end
  or before a newline that ends it; the result is \<open>group(1)\<close>.
\<close>

definition at_dollar :: "pystr \<Rightarrow> nat \<Rightarrow> bool" where
  "at_dollar s n = (n = length s \<or> (Suc n = length s \<and> s ! n = 10))"

definition re_search_anchored :: "re_item list \<Rightarrow> pystr \<Rightarrow> pystr option" where
  "re_search_anchored p s =
     (case filter (at_dollar s) (ends p s) of [] \<Rightarrow> None | n # _ \<Rightarrow> Some (take n s))"

text \<open>\<open>m.group(..)\<close> on the result of a search\<close>

definition group :: "pystr option \<Rightarrow> exc + pystr" where
  "group m = (case m of None \<Rightarrow> Inl AttributeError | Some g \<Rightarrow> Inr g)"

definition one :: "nat \<Rightarrow> re_item" where
  "one c = ((\<lambda>x. x = c), 1, Some 1)"

text \<open>\<open>[\w\.-]+@[\w\.-]+\.\w+\<close>\<close>

definition email_re :: "unicode_db \<Rightarrow> re_item list" where
  "email_re U =
     [((\<lambda>c. isword U c \<or> c = 46 \<or> c = 45), 1, None), one 64,
      ((\<lambda>c. isword U c \<or> c = 46 \<or> c = 45), 1, None), one 46,
      (isword U, 1, None)]"

text \<open>\<open>\d{3}[\s\.-]?\d{3}[\s\.-]?\d{4}\<close>\<close>

definition phone_re :: "unicode_db \<Rightarrow> re_item list" where
  "phone_re U =
     [(isdigit U, 3, Some 3), ((\<lambda>c. isspace c \<or> c = 46 \<or> c = 45), 0, Some 1),
      (isdigit U, 3, Some 3), ((\<lambda>c. isspace c \<or> c = 46 \<or> c = 45), 0, Some 1),
      (isdigit U, 4, Some 4)]"

text \<open>\<open>[A-Za-z\s]+,\s+[A-Za-z\s]{2,}\<close>, between \<open>^(\<close> and \<open>)$\<close> in the source\<close>

definition location_re :: "re_item list" where
  "location_re =
     [((\<lambda>c. isalpha_ascii c \<or> isspace c), 1, None), one 44, (isspace, 1, None),
      ((\<lambda>c. isalpha_ascii c \<or> isspace c), 2, None)]"

text \<open>\<open>\d\d/\d\d\d\d\<close>\<close>

definition date_re :: "unicode_db \<Rightarrow> re_item list" where
  "date_re U = [(isdigit U, 2, Some 2), one 47, (isdigit U, 4, Some 4)]"

text \<open>
  The alternatives of the first repetition of a pattern, the longest first: the same list
  as in \<open>ends\<close>, by recursion on the length that is tried.
\<close>

fun alts :: "re_item list \<Rightarrow> pystr \<Rightarrow> nat \<Rightarrow> nat \<Rightarrow> nat list" where
  "alts p s lo k =
     (if k < lo then []
      else map (\<lambda>m. k + m) (ends p (drop k s)) @ (if lo < k then alts p s lo (k - 1) else []))"

declare alts.simps [simp del]

section \<open>The resume record\<close>

record job_entry =
  job_company :: pystr
  job_position :: pystr
  job_period :: pystr
  job_description :: "pystr list"

section \<open>\<open>_parse_experience\<close>\<close>

text \<open>
  The marker that the source compares with, as the source file has it: the three code
  points U+201A, U+00C4, U+00A2.
\<close>

definition bullet :: pystr where
  "bullet = [8218, 196, 162]"

record exp_state =
  company :: "pystr option"
  position :: "pystr option"
  period :: "pystr option"
  description :: "pystr list"
  experience_entries :: "job_entry list"

definition exp_init :: exp_state where
  "exp_init = \<lparr> company = None, position = None, period = None, description = [],
                experience_entries = [] \<rparr>"

definition current_job :: "exp_state \<Rightarrow> job_entry" where
  "current_job st = \<lparr> job_company = or_empty (company st),
                       job_position = or_empty (position st),
                       job_period = or_empty (period st),
                       job_description = description st \<rparr>"

text \<open>
  The test of the date range: \<open>and\<close> binds tighter than \<open>or\<close>, so
  \<open>a and b or c and d\<close> is \<open>(a and b) or (c and d)\<close>.
\<close>

definition is_date_range :: "unicode_db \<Rightarrow> pystr \<Rightarrow> bool" where
  "is_date_range U line =
     ((re_search (date_re U) line \<noteq> None \<and> contains (lower U line) (lit ''present''))
      \<or> (45 \<in> set line \<and> 2 \<le> count_char line 47))"

text \<open>The branch of the loop body that a stripped line takes, in the order of the source.\<close>

datatype line_kind = Blank | Bullet | DateRange | NewJob | Slot

definition exp_kind :: "unicode_db \<Rightarrow> exp_state \<Rightarrow> pystr \<Rightarrow> line_kind" where
  "exp_kind U st line =
     (if line = [] then Blank
      else if startswith line bullet then Bullet
      else if is_date_range U line then DateRange
      else if truthy (company st) \<and> (strip line \<noteq> [] \<and> 2 < length (split_ws (strip line)))
        then NewJob
      else Slot)"

definition exp_step :: "unicode_db \<Rightarrow> exp_state \<Rightarrow> pystr \<Rightarrow> exp_state" where
  "exp_step U st line =
     (case exp_kind U st line of
        Blank \<Rightarrow> st
      | Bullet \<Rightarrow> st\<lparr> description := description st @ [strip (drop 1 line)] \<rparr>
      | DateRange \<Rightarrow> st\<lparr> period := Some line \<rparr>
      | NewJob \<Rightarrow> \<lparr> company = Some line, position = None, period = None, description = [],
                    experience_entries = experience_entries st @ [current_job st] \<rparr>
      | Slot \<Rightarrow> (if \<not> truthy (company st) then st\<lparr> company := Some line \<rparr>
                 else if \<not> truthy (position st) then st\<lparr> position := Some line \<rparr>
                 else st))"

function exp_loop :: "unicode_db \<Rightarrow> pystr list \<Rightarrow> int \<Rightarrow> exp_state \<Rightarrow> exc + exp_state" where
  "exp_loop U lines i st =
     (if i < int (length lines) then
        (case index lines i of
           Inl e \<Rightarrow> Inl e
         | Inr l \<Rightarrow> exp_loop U lines (i + 1) (exp_step U st (strip l)))
      else Inr st)"
  by pat_completeness auto
termination
  by (relation "measure (\<lambda>(U, lines, i, st). nat (int (length lines) - i))") auto

declare exp_loop.simps [simp del]

definition parse_experience :: "unicode_db \<Rightarrow> pystr \<Rightarrow> exc + job_entry list" where
  "parse_experience U content =
     (case exp_loop U (split_nl content) 0 exp_init of
        Inl e \<Rightarrow> Inl e
      | Inr st \<Rightarrow> Inr (if truthy (company st)
                       then experience_entries st @ [current_job st]
                       else experience_entries st))"

section \<open>\<open>_parse_education\<close>\<close>

record education_entry =
  edu_institution :: pystr
  edu_degree :: pystr
  edu_period :: pystr
  edu_details :: "pystr list"

definition parse_education :: "pystr \<Rightarrow> education_entry list" where
  "parse_education content =
     (if content \<noteq> []
      then [\<lparr> edu_institution = lit ''Education'', edu_degree = content, edu_period = [],
              edu_details = [] \<rparr>]
      else [])"

section \<open>\<open>_parse_certifications\<close> and \<open>_parse_honors_awards\<close>\<close>

record certification =
  cert_provider :: pystr
  cert_certification :: pystr

text \<open>The loop body; the state is \<open>current_provider\<close> and the list built so far.\<close>

definition cert_step ::
  "pystr option \<times> certification list \<Rightarrow> pystr \<Rightarrow> pystr option \<times> certification list" where
  "cert_step st raw =
     (case st of (current_provider, certifications) \<Rightarrow>
        let line = strip raw in
        if line = [] then (current_provider, certifications)
        else if startswith line bullet then
          (let cert_name = strip (drop 1 line) in
           case current_provider of
             None \<Rightarrow> (current_provider, certifications)
           | Some p \<Rightarrow>
               if p \<noteq> []
               then (current_provider,
                     certifications @ [\<lparr> cert_provider = p, cert_certification = cert_name \<rparr>])
               else (current_provider, certifications))
        else (Some line, certifications))"

definition parse_certifications :: "pystr \<Rightarrow> certification list" where
  "parse_certifications content = snd (foldl cert_step (None, []) (split_nl content))"

record award =
  award_organization :: pystr
  award_award :: pystr

definition award_step ::
  "pystr option \<times> award list \<Rightarrow> pystr \<Rightarrow> pystr option \<times> award list" where
  "award_step st raw =
     (case st of (current_org, awards) \<Rightarrow>
        let line = strip raw in
        if line = [] then (current_org, awards)
        else if startswith line bullet then
          (let award_name = strip (drop 1 line) in
           case current_org of
             None \<Rightarrow> (current_org, awards)
           | Some org \<Rightarrow>
               if org \<noteq> []
               then (current_org,
                     awards @ [\<lparr> award_organization = org, award_award = award_name \<rparr>])
               else (current_org, awards))
        else (Some line, awards))"

definition parse_honors_awards :: "pystr \<Rightarrow> award list" where
  "parse_honors_awards content = snd (foldl award_step (None, []) (split_nl content))"

section \<open>\<open>_parse_skills\<close>\<close>

text \<open>
  A \<open>dict\<close> keeps its keys in the order of their first insertion; an assignment to a key
  that is present keeps the key's place. \<open>AList.update\<close> does the same on a list of pairs.
\<close>

type_synonym skills_dict = "(pystr \<times> pystr list) list"

text \<open>
  The inner loop over the pieces of \<open>re.split(r',|\|', line)\<close>;
  \<open>skills[current_category].append(skill)\<close> reads the dictionary and can raise.
\<close>

fun add_skills :: "skills_dict \<Rightarrow> pystr \<Rightarrow> pystr list \<Rightarrow> exc + skills_dict" where
  "add_skills skills current_category [] = Inr skills"
| "add_skills skills current_category (piece # pieces) =
     (let skill = strip piece in
      if skill \<noteq> [] then
        (case getitem skills current_category of
           Inl e \<Rightarrow> Inl e
         | Inr old \<Rightarrow>
             add_skills (AList.update current_category (old @ [skill]) skills)
               current_category pieces)
      else add_skills skills current_category pieces)"

definition skills_step ::
  "skills_dict \<times> pystr \<Rightarrow> pystr \<Rightarrow> exc + skills_dict \<times> pystr" where
  "skills_step st raw =
     (case st of (skills, current_category) \<Rightarrow>
        let line = strip raw in
        if line = [] then Inr (skills, current_category)
        else if endswith line [58] then
          (let category = strip (butlast line) in
           Inr (AList.update category [] skills, category))
        else
          (let skills1 = (if map_of skills current_category = None
                          then AList.update current_category [] skills else skills)
           in case add_skills skills1 current_category
                     (split_on (\<lambda>c. c = 44 \<or> c = 124) line) of
                Inl e \<Rightarrow> Inl e
              | Inr skills2 \<Rightarrow> Inr (skills2, current_category)))"

fun skills_loop ::
  "skills_dict \<times> pystr \<Rightarrow> pystr list \<Rightarrow> exc + skills_dict \<times> pystr" where
  "skills_loop st [] = Inr st"
| "skills_loop st (raw # rest) =
     (case skills_step st raw of Inl e \<Rightarrow> Inl e | Inr st' \<Rightarrow> skills_loop st' rest)"

definition parse_skills :: "pystr \<Rightarrow> exc + skills_dict" where
  "parse_skills content =
     (case skills_loop ([], lit ''General'') (split_nl content) of
        Inl e \<Rightarrow> Inl e
      | Inr st \<Rightarrow> Inr (fst st))"

section \<open>The parser object\<close>

record resume_data =
  name :: pystr
  contact :: "(string \<times> pystr) list"
  summary :: pystr
  experience :: "job_entry list"
  education :: "education_entry list"
  skills :: skills_dict
  certifications :: "certification list"
  honors_awards :: "award list"

record parser =
  input_file :: pystr
  content :: pystr
  resume_data :: resume_data

text \<open>\<open>__init__\<close>\<close>

definition init :: "pystr \<Rightarrow> parser" where
  "init file =
     \<lparr> input_file = file, content = [],
       resume_data = \<lparr> name = lit ''Your Name'', contact = [], summary = [], experience = [],
                       education = [], skills = [], certifications = [],
                       honors_awards = [] \<rparr> \<rparr>"

text \<open>\<open>load_content\<close>, with the text that the file holds\<close>

definition load_content :: "parser \<Rightarrow> pystr \<Rightarrow> parser" where
  "load_content self text = self\<lparr> content := text \<rparr>"

definition and_then :: "exc + 'a \<Rightarrow> ('a \<Rightarrow> exc + 'b) \<Rightarrow> exc + 'b" where
  "and_then m f = (case m of Inl e \<Rightarrow> Inl e | Inr x \<Rightarrow> f x)"

section \<open>\<open>_extract_contact_info\<close>\<close>

text \<open>The loop over the top lines; it leaves at the first line that matches.\<close>

fun location_loop ::
  "(string \<times> pystr) list \<Rightarrow> pystr list \<Rightarrow> exc + (string \<times> pystr) list" where
  "location_loop c [] = Inr c"
| "location_loop c (raw # rest) =
     (let line = strip raw; location_match = re_search_anchored location_re line in
      if location_match \<noteq> None
      then and_then (group location_match) (\<lambda>g. Inr (AList.update ''location'' g c))
      else location_loop c rest)"

definition extract_contact_info ::
  "unicode_db \<Rightarrow> (string \<times> pystr) list \<Rightarrow> pystr list \<Rightarrow> exc + (string \<times> pystr) list" where
  "extract_contact_info U c top_lines =
     (let top_text = join_nl top_lines;
          email_match = re_search (email_re U) top_text;
          phone_match = re_search (phone_re U) top_text
      in and_then (if email_match \<noteq> None
                   then and_then (group email_match) (\<lambda>g. Inr (AList.update ''email'' g c))
                   else Inr c)
           (\<lambda>c1. and_then (if phone_match \<noteq> None
                            then and_then (group phone_match)
                                   (\<lambda>g. Inr (AList.update ''phone'' g c1))
                            else Inr c1)
                    (\<lambda>c2. location_loop c2 top_lines)))"

section \<open>\<open>_extract_all_sections\<close>\<close>

definition section_headers_init :: "(pystr \<times> int) list" where
  "section_headers_init =
     [(lit ''SUMMARY'', - 1), (lit ''EXPERIENCE'', - 1), (lit ''EDUCATION'', - 1),
      (lit ''CERTIFICATIONS'', - 1), (lit ''SKILLS'', - 1), (lit ''HONORS AND AWARDS'', - 1)]"

definition enumerate_from0 :: "'a list \<Rightarrow> (int \<times> 'a) list" where
  "enumerate_from0 xs = zip (map int [0 ..< length xs]) xs"

text \<open>The body of the loop over the lines: the inner loop over the keys of the dictionary.\<close>

definition mark_headers ::
  "unicode_db \<Rightarrow> (pystr \<times> int) list \<Rightarrow> int \<times> pystr \<Rightarrow> (pystr \<times> int) list" where
  "mark_headers U section_headers il =
     (case il of (i, raw) \<Rightarrow>
        let line = upper U (strip raw) in
        foldl (\<lambda>hs header. if line = header then AList.update header i hs else hs)
          section_headers (map fst section_headers))"

definition find_headers :: "unicode_db \<Rightarrow> pystr list \<Rightarrow> (pystr \<times> int) list" where
  "find_headers U lines = foldl (mark_headers U) section_headers_init (enumerate_from0 lines)"

text \<open>\<open>sorted([(pos, header) for header, pos in section_headers.items() if pos >= 0])\<close>\<close>

definition headers_list :: "(pystr \<times> int) list \<Rightarrow> (int \<times> pystr) list" where
  "headers_list section_headers =
     sort (map (\<lambda>(header, pos). (pos, header))
               (filter (\<lambda>(header, pos). 0 \<le> pos) section_headers))"

fun sections_loop ::
  "pystr list \<Rightarrow> (int \<times> pystr) list \<Rightarrow> (int \<times> int \<times> pystr) list \<Rightarrow> (pystr \<times> pystr) list
     \<Rightarrow> exc + (pystr \<times> pystr) list" where
  "sections_loop lines hl [] sections = Inr sections"
| "sections_loop lines hl ((i, pos, header) # rest) sections =
     (let start = pos + 1 in
      case (if i < int (length hl) - 1
            then (case index hl (i + 1) of Inl e \<Rightarrow> Inl e | Inr nxt \<Rightarrow> Inr (fst nxt))
            else Inr (int (length lines))) of
        Inl e \<Rightarrow> Inl e
      | Inr end_pos \<Rightarrow>
          (let section_lines = filter (\<lambda>line. strip line \<noteq> []) (slice lines start end_pos)
           in sections_loop lines hl rest (AList.update header (join_nl section_lines) sections)))"

definition extract_sections :: "unicode_db \<Rightarrow> pystr \<Rightarrow> exc + (pystr \<times> pystr) list" where
  "extract_sections U text =
     (let lines = split_nl text;
          hl = headers_list (find_headers U lines)
      in sections_loop lines hl (enumerate_from0 hl) [])"

text \<open>The six tests after the loop, each of which assigns one field of the record.\<close>

definition parse_sections ::
  "unicode_db \<Rightarrow> (pystr \<times> pystr) list \<Rightarrow> resume_data \<Rightarrow> exc + resume_data" where
  "parse_sections U sections d0 =
     and_then (if has_key sections (lit ''SUMMARY'')
               then and_then (getitem sections (lit ''SUMMARY'')) (\<lambda>v. Inr (d0\<lparr> summary := v \<rparr>))
               else Inr d0)
     (\<lambda>d1. and_then (if has_key sections (lit ''EXPERIENCE'')
               then and_then (getitem sections (lit ''EXPERIENCE''))
                      (\<lambda>v. and_then (parse_experience U v) (\<lambda>x. Inr (d1\<lparr> experience := x \<rparr>)))
               else Inr d1)
     (\<lambda>d2. and_then (if has_key sections (lit ''EDUCATION'')
               then and_then (getitem sections (lit ''EDUCATION''))
                      (\<lambda>v. Inr (d2\<lparr> education := parse_education v \<rparr>))
               else Inr d2)
     (\<lambda>d3. and_then (if has_key sections (lit ''CERTIFICATIONS'')
               then and_then (getitem sections (lit ''CERTIFICATIONS''))
                      (\<lambda>v. Inr (d3\<lparr> certifications := parse_certifications v \<rparr>))
               else Inr d3)
     (\<lambda>d4. and_then (if has_key sections (lit ''SKILLS'')
               then and_then (getitem sections (lit ''SKILLS''))
                      (\<lambda>v. and_then (parse_skills v) (\<lambda>x. Inr (d4\<lparr> skills := x \<rparr>)))
               else Inr d4)
     (\<lambda>d5. if has_key sections (lit ''HONORS AND AWARDS'')
               then and_then (getitem sections (lit ''HONORS AND AWARDS''))
                      (\<lambda>v. Inr (d5\<lparr> honors_awards := parse_honors_awards v \<rparr>))
               else Inr d5)))))"

definition extract_all_sections :: "unicode_db \<Rightarrow> parser \<Rightarrow> exc + parser" where
  "extract_all_sections U self =
     and_then (extract_sections U (content self))
       (\<lambda>sections. and_then (parse_sections U sections (resume_data self))
          (\<lambda>d. Inr (self\<lparr> resume_data := d \<rparr>)))"

section \<open>\<open>parse\<close>\<close>

text \<open>The result is the value returned, \<open>self.resume_data\<close>, and the parser after the call.\<close>

definition parse :: "unicode_db \<Rightarrow> parser \<Rightarrow> exc + resume_data \<times> parser" where
  "parse U self =
     (let lines = split_nl (content self) in
      and_then (if lines = [] then Inr False
                else and_then (index lines 0) (\<lambda>l. Inr (strip l \<noteq> [])))
      (\<lambda>has_name.
      and_then (if has_name
                then and_then (index lines 0)
                       (\<lambda>l. Inr (self\<lparr> resume_data := (resume_data self)\<lparr> name := strip l \<rparr> \<rparr>))
                else Inr self)
      (\<lambda>self1.
      and_then (extract_contact_info U (contact (resume_data self1)) (slice lines 0 10))
      (\<lambda>c.
      and_then (extract_all_sections U
                  (self1\<lparr> resume_data := (resume_data self1)\<lparr> contact := c \<rparr> \<rparr>))
      (\<lambda>self2. Inr (resume_data self2, self2))))))"

text \<open>A fresh parser for a file that holds \<open>text\<close>, loaded and parsed.\<close>

definition parse_text :: "unicode_db \<Rightarrow> pystr \<Rightarrow> pystr \<Rightarrow> exc + resume_data" where
  "parse_text U file text =
     and_then (parse U (load_content (init file) text)) (\<lambda>r. Inr (fst r))"

text \<open>What the loop of \<open>_parse_experience\<close> returns after its last line.\<close>

definition exp_finish :: "exp_state \<Rightarrow> job_entry list" where
  "exp_finish st = (if truthy (company st) then experience_entries st @ [current_job st]
                    else experience_entries st)"

section \<open>Closed forms used in the proofs\<close>

text \<open>The field that a section assigns: the parsed section if it is there, else the old value.\<close>

definition section_or :: "(pystr \<times> pystr) list \<Rightarrow> pystr \<Rightarrow> (pystr \<Rightarrow> 'a) \<Rightarrow> 'a \<Rightarrow> 'a" where
  "section_or sections k f dflt = (case map_of sections k of None \<Rightarrow> dflt | Some v \<Rightarrow> f v)"

text \<open>The record after the first statement of \<open>parse\<close>, which reads the name.\<close>

definition with_name :: "pystr list \<Rightarrow> resume_data \<Rightarrow> resume_data" where
  "with_name lines d =
     (case lines of [] \<Rightarrow> d | l # _ \<Rightarrow> if strip l \<noteq> [] then d\<lparr> name := strip l \<rparr> else d)"

section \<open>The statement that skill lists only grow\<close>

text \<open>
  \<open>append_only before after\<close>: every category of \<open>before\<close> is a category of \<open>after\<close>,
  and its skills in \<open>before\<close> are the first skills of its list in \<open>after\<close>.
\<close>

definition append_only :: "skills_dict \<Rightarrow> skills_dict \<Rightarrow> bool" where
  "append_only before after =
     list_all (\<lambda>k. case map_of before k of
                       None \<Rightarrow> True
                     | Some old \<Rightarrow> (case map_of after k of
                                      None \<Rightarrow> False
                                    | Some new \<Rightarrow> take (length old) new = old))
              (map fst before)"

section \<open>The date-range test as the specification words it\<close>

text \<open>
  An \<open>MM/YYYY\<close> substring, and with it either the word \<open>present\<close> or a hyphen and two
  slashes. This follows the words of the specification, not the source, and is compared
  with \<open>is_date_range\<close>.
\<close>

definition date_range_as_specified :: "unicode_db \<Rightarrow> pystr \<Rightarrow> bool" where
  "date_range_as_specified U line =
     (re_search (date_re U) line \<noteq> None
      \<and> (contains (lower U line) (lit ''present'') \<or> (45 \<in> set line \<and> 2 \<le> count_char line 47)))"

section \<open>The span of a section\<close>

text \<open>The text of the lines \<open>a\<close> up to \<open>b\<close>, without \<open>b\<close> and without the blank lines.\<close>

definition span :: "pystr list \<Rightarrow> int \<Rightarrow> int \<Rightarrow> pystr" where
  "span lines a b = join_nl (filter (\<lambda>line. strip line \<noteq> []) (slice lines a b))"

text \<open>
  Where the section of the header at place \<open>k\<close> of the sorted list ends: at the line of
  the next header of the list, or at the end of the document.
\<close>

definition end_of :: "(int \<times> pystr) list \<Rightarrow> pystr list \<Rightarrow> int \<Rightarrow> int" where
  "end_of hl lines k =
     (if k < int (length hl) - 1 then fst (hl ! nat (k + 1)) else int (length lines))"

section \<open>Evaluating the patterns and the character classes\<close>

lemma alts_eq:
  "alts p s lo k = concat (map (\<lambda>n. map (\<lambda>m. n + m) (ends p (drop n s))) (rev [lo ..< Suc k]))"
proof (induction k)
  case 0
  show ?case by (subst alts.simps) simp
next
  case (Suc k)
  show ?case
  proof (cases "lo \<le> k")
    case True
    with Suc show ?thesis by (subst alts.simps) simp
  next
    case False
    then show ?thesis by (subst alts.simps) (simp add: not_le)
  qed
qed

lemma ends_Cons_alts: "ends ((cls, lo, hi) # p) s = alts p s lo (run_len cls hi s)"
  by (simp add: alts_eq)

lemma isspace_numeral:
  "isspace (numeral n) = ((9 \<le> (numeral n :: nat) \<and> (numeral n :: nat) \<le> 13)
     \<or> (28 \<le> (numeral n :: nat) \<and> (numeral n :: nat) \<le> 32) \<or> (numeral n :: nat) = 133
     \<or> (numeral n :: nat) = 160 \<or> (numeral n :: nat) = 5760
     \<or> (8192 \<le> (numeral n :: nat) \<and> (numeral n :: nat) \<le> 8202) \<or> (numeral n :: nat) = 8232
     \<or> (numeral n :: nat) = 8233 \<or> (numeral n :: nat) = 8239 \<or> (numeral n :: nat) = 8287
     \<or> (numeral n :: nat) = 12288)"
  by (simp only: isspace_def)

lemma isdigit_numeral:
  "isdigit U (numeral n) = (if (numeral n :: nat) < 128 then 48 \<le> (numeral n :: nat) \<and> (numeral n :: nat) \<le> 57
                            else db_isdecimal U (numeral n))"
  by (simp only: isdigit_def)

lemma isalpha_ascii_numeral:
  "isalpha_ascii (numeral n) = ((65 \<le> (numeral n :: nat) \<and> (numeral n :: nat) \<le> 90)
     \<or> (97 \<le> (numeral n :: nat) \<and> (numeral n :: nat) \<le> 122))"
  by (simp only: isalpha_ascii_def)

lemma isword_numeral:
  "isword U (numeral n) = (if (numeral n :: nat) < 128
     then isalpha_ascii (numeral n) \<or> (48 \<le> (numeral n :: nat) \<and> (numeral n :: nat) \<le> 57)
          \<or> (numeral n :: nat) = 95
     else db_isalnum U (numeral n))"
  by (simp only: isword_def)

lemmas char_eval = isspace_numeral isdigit_numeral isalpha_ascii_numeral isword_numeral

lemmas re_eval = match_at_def ends_Cons_alts alts.simps run_len_def one_def

section \<open>Every subscript of the parser is in range\<close>

lemma and_then_Inr [simp]: "and_then (Inr x) f = f x"
  by (simp add: and_then_def)

lemma and_then_Inl [simp]: "and_then (Inl e) f = Inl e"
  by (simp add: and_then_def)

lemma group_Some [simp]: "group (Some g) = Inr g"
  by (simp add: group_def)

lemma index_in_range: "0 \<le> i \<Longrightarrow> i < int (length xs) \<Longrightarrow> index xs i = Inr (xs ! nat i)"
  by (simp add: index_def)

lemma getitem_has_key: "has_key d k \<Longrightarrow> \<exists>v. getitem d k = Inr v"
  by (auto simp: has_key_def getitem_def split: option.splits)

lemma exp_loop_fold:
  "0 \<le> i \<Longrightarrow>
   exp_loop U lines i st = Inr (foldl (\<lambda>s l. exp_step U s (strip l)) st (drop (nat i) lines))"
proof (induction U lines i st rule: exp_loop.induct)
  case (1 U lines i st)
  show ?case
  proof (cases "i < int (length lines)")
    case True
    with "1.prems" have ix: "index lines i = Inr (lines ! nat i)"
      by (simp add: index_in_range)
    from True "1.prems" have d: "drop (nat i) lines = lines ! nat i # drop (nat (i + 1)) lines"
      by (simp add: Cons_nth_drop_Suc nat_add_distrib)
    from "1.IH" [OF True ix] "1.prems"
    have "exp_loop U lines (i + 1) (exp_step U st (strip (lines ! nat i))) =
          Inr (foldl (\<lambda>s l. exp_step U s (strip l)) (exp_step U st (strip (lines ! nat i)))
                 (drop (nat (i + 1)) lines))"
      by simp
    with True ix d show ?thesis
      by (subst exp_loop.simps) simp
  next
    case False
    then show ?thesis
      by (subst exp_loop.simps) simp
  qed
qed

lemma parse_experience_fold:
  "parse_experience U text =
     Inr (exp_finish (foldl (\<lambda>s l. exp_step U s (strip l)) exp_init (split_nl text)))"
  by (simp add: parse_experience_def exp_loop_fold exp_finish_def)


lemma add_skills_total:
  "map_of sk cc \<noteq> None \<Longrightarrow> \<exists>sk'. add_skills sk cc ps = Inr sk' \<and> map_of sk' cc \<noteq> None"
proof (induction ps arbitrary: sk)
  case Nil
  then show ?case by simp
next
  case (Cons p ps)
  show ?case
  proof (cases "strip p = []")
    case True
    with Cons show ?thesis by simp
  next
    case False
    from Cons.prems obtain old where old: "map_of sk cc = Some old" by auto
    have "map_of (AList.update cc (old @ [strip p]) sk) cc \<noteq> None"
      by (simp add: update_conv')
    from Cons.IH [OF this] False old show ?thesis
      by (simp add: getitem_def)
  qed
qed

lemma skills_step_total: "\<exists>st'. skills_step st raw = Inr st'"
proof (cases st)
  case (Pair sk cc)
  let ?sk1 = "if map_of sk cc = None then AList.update cc [] sk else sk"
  have "map_of ?sk1 cc \<noteq> None"
    by (simp add: update_conv')
  from add_skills_total [OF this]
  obtain sk' where "add_skills ?sk1 cc (split_on (\<lambda>c. c = 44 \<or> c = 124) (strip raw)) = Inr sk'"
    by blast
  with Pair show ?thesis
    by (simp add: skills_step_def Let_def)
qed

lemma skills_loop_total: "\<exists>st'. skills_loop st ls = Inr st'"
proof (induction ls arbitrary: st)
  case Nil
  then show ?case by simp
next
  case (Cons l ls)
  obtain st1 where "skills_step st l = Inr st1"
    using skills_step_total by blast
  with Cons.IH [of st1] show ?case by simp
qed

lemma parse_skills_total: "\<exists>sk. parse_skills text = Inr sk"
proof -
  obtain st where "skills_loop ([], lit ''General'') (split_nl text) = Inr st"
    using skills_loop_total by blast
  then show ?thesis by (simp add: parse_skills_def)
qed

lemma sections_loop_total:
  "\<forall>e \<in> set rest. 0 \<le> fst e \<Longrightarrow> \<exists>s'. sections_loop lines hl rest s = Inr s'"
proof (induction rest arbitrary: s)
  case Nil
  then show ?case by simp
next
  case (Cons e rest)
  obtain i pos header where e: "e = (i, pos, header)" by (cases e) auto
  with Cons.prems have i0: "0 \<le> i" by simp
  have "\<exists>end_pos. (if i < int (length hl) - 1
            then (case index hl (i + 1) of Inl e \<Rightarrow> Inl e | Inr nxt \<Rightarrow> Inr (fst nxt))
            else Inr (int (length lines))) = Inr end_pos"
    using i0 by (simp add: index_in_range)
  then obtain end_pos where "(if i < int (length hl) - 1
            then (case index hl (i + 1) of Inl e \<Rightarrow> Inl e | Inr nxt \<Rightarrow> Inr (fst nxt))
            else Inr (int (length lines))) = Inr end_pos" ..
  moreover from Cons.prems have "\<forall>e \<in> set rest. 0 \<le> fst e" by simp
  ultimately show ?case
    using Cons.IH e by (simp add: Let_def)
qed

lemma enumerate_from0_nonneg: "\<forall>e \<in> set (enumerate_from0 xs). 0 \<le> fst e"
  by (auto simp: enumerate_from0_def dest!: set_zip_leftD)

lemma extract_sections_total: "\<exists>s. extract_sections U text = Inr s"
  by (simp add: extract_sections_def Let_def sections_loop_total enumerate_from0_nonneg)

section \<open>The contact block\<close>

lemma location_loop_keys:
  "\<exists>c'. location_loop c ls = Inr c' \<and> fst ` set c' \<subseteq> insert ''location'' (fst ` set c)"
proof (induction ls)
  case Nil
  then show ?case by auto
next
  case (Cons l ls)
  show ?case
  proof (cases "re_search_anchored location_re (strip l)")
    case None
    with Cons show ?thesis by simp
  next
    case (Some g)
    then show ?thesis by (simp add: dom_update)
  qed
qed

lemma set_if_match_keys:
  "\<exists>c'. (if m \<noteq> None then and_then (group m) (\<lambda>g. Inr (AList.update k g c)) else Inr c) = Inr c'
        \<and> fst ` set c' \<subseteq> insert k (fst ` set c)"
  by (cases m) (auto simp: dom_update)

lemma three_keys:
  "A1 \<subseteq> insert x A0 \<Longrightarrow> A2 \<subseteq> insert y A1 \<Longrightarrow> A3 \<subseteq> insert z A2 \<Longrightarrow> A3 \<subseteq> {x, y, z} \<union> A0"
  by blast

lemma extract_contact_info_keys:
  "\<exists>c'. extract_contact_info U c top_lines = Inr c' \<and>
        fst ` set c' \<subseteq> {''email'', ''phone'', ''location''} \<union> fst ` set c"
proof -
  obtain c1 where c1: "(if re_search (email_re U) (join_nl top_lines) \<noteq> None
        then and_then (group (re_search (email_re U) (join_nl top_lines)))
               (\<lambda>g. Inr (AList.update ''email'' g c))
        else Inr c) = Inr c1" and k1: "fst ` set c1 \<subseteq> insert ''email'' (fst ` set c)"
    using set_if_match_keys [of "re_search (email_re U) (join_nl top_lines)" "''email''" c]
    by (elim exE conjE)
  obtain c2 where c2: "(if re_search (phone_re U) (join_nl top_lines) \<noteq> None
        then and_then (group (re_search (phone_re U) (join_nl top_lines)))
               (\<lambda>g. Inr (AList.update ''phone'' g c1))
        else Inr c1) = Inr c2" and k2: "fst ` set c2 \<subseteq> insert ''phone'' (fst ` set c1)"
    using set_if_match_keys [of "re_search (phone_re U) (join_nl top_lines)" "''phone''" c1]
    by (elim exE conjE)
  obtain c3 where c3: "location_loop c2 top_lines = Inr c3"
      and k3: "fst ` set c3 \<subseteq> insert ''location'' (fst ` set c2)"
    using location_loop_keys [of c2 top_lines] by (elim exE conjE)
  have "extract_contact_info U c top_lines = Inr c3"
    unfolding extract_contact_info_def Let_def c1 and_then_Inr c2 c3 ..
  moreover from k1 k2 k3 have "fst ` set c3 \<subseteq> {''email'', ''phone'', ''location''} \<union> fst ` set c"
    by (rule three_keys)
  ultimately show ?thesis by (intro exI conjI)
qed

section \<open>The six assignments of the sections\<close>

lemma assign_plain:
  "(if has_key s k then and_then (getitem s k) (\<lambda>v. Inr (g v)) else Inr d) =
   Inr (section_or s k g d)"
  by (cases "map_of s k") (simp_all add: has_key_def getitem_def section_or_def)

lemma assign_experience:
  "(if has_key s k
    then and_then (getitem s k) (\<lambda>v. and_then (parse_experience U v) (\<lambda>x. Inr (g x)))
    else Inr d) =
   Inr (section_or s k (\<lambda>v. g (projr (parse_experience U v))) d)"
  by (cases "map_of s k") (simp_all add: has_key_def getitem_def section_or_def parse_experience_fold)

lemma assign_skills:
  "(if has_key s k
    then and_then (getitem s k) (\<lambda>v. and_then (parse_skills v) (\<lambda>x. Inr (g x)))
    else Inr d) =
   Inr (section_or s k (\<lambda>v. g (projr (parse_skills v))) d)"
proof (cases "map_of s k")
  case None
  then show ?thesis by (simp add: has_key_def section_or_def)
next
  case (Some v)
  obtain sk where "parse_skills v = Inr sk" using parse_skills_total by blast
  with Some show ?thesis by (simp add: has_key_def getitem_def section_or_def)
qed

lemma section_or_summary:
  "section_or s k (\<lambda>v. d\<lparr> summary := g v \<rparr>) d = d\<lparr> summary := section_or s k g (summary d) \<rparr>"
  by (simp add: section_or_def split: option.splits)

lemma section_or_experience:
  "section_or s k (\<lambda>v. d\<lparr> experience := g v \<rparr>) d =
   d\<lparr> experience := section_or s k g (experience d) \<rparr>"
  by (simp add: section_or_def split: option.splits)

lemma section_or_education:
  "section_or s k (\<lambda>v. d\<lparr> education := g v \<rparr>) d =
   d\<lparr> education := section_or s k g (education d) \<rparr>"
  by (simp add: section_or_def split: option.splits)

lemma section_or_certifications:
  "section_or s k (\<lambda>v. d\<lparr> certifications := g v \<rparr>) d =
   d\<lparr> certifications := section_or s k g (certifications d) \<rparr>"
  by (simp add: section_or_def split: option.splits)

lemma section_or_skills:
  "section_or s k (\<lambda>v. d\<lparr> skills := g v \<rparr>) d = d\<lparr> skills := section_or s k g (skills d) \<rparr>"
  by (simp add: section_or_def split: option.splits)

lemma section_or_honors_awards:
  "section_or s k (\<lambda>v. d\<lparr> honors_awards := g v \<rparr>) d =
   d\<lparr> honors_awards := section_or s k g (honors_awards d) \<rparr>"
  by (simp add: section_or_def split: option.splits)

lemma parse_sections_eq:
  "parse_sections U s d =
   Inr (d\<lparr> summary := section_or s (lit ''SUMMARY'') (\<lambda>v. v) (summary d),
           experience := section_or s (lit ''EXPERIENCE'')
                           (\<lambda>v. projr (parse_experience U v)) (experience d),
           education := section_or s (lit ''EDUCATION'') parse_education (education d),
           certifications := section_or s (lit ''CERTIFICATIONS'') parse_certifications
                               (certifications d),
           skills := section_or s (lit ''SKILLS'') (\<lambda>v. projr (parse_skills v)) (skills d),
           honors_awards := section_or s (lit ''HONORS AND AWARDS'') parse_honors_awards
                              (honors_awards d) \<rparr>)"
  by (simp add: parse_sections_def assign_plain assign_experience assign_skills
        section_or_summary section_or_experience section_or_education
        section_or_certifications section_or_skills section_or_honors_awards)

section \<open>\<open>parse\<close> step by step\<close>

lemma parse_sections_contact:
  assumes "parse_sections U s d = Inr d'"
  shows "contact d' = contact d" and "name d' = name d"
  using assms by (auto simp: parse_sections_eq)

lemma contact_with_name [simp]: "contact (with_name lines d) = contact d"
  by (simp add: with_name_def split: list.splits)

lemma parse_steps:
  assumes c: "extract_contact_info U (contact (resume_data self))
                (slice (split_nl (content self)) 0 10) = Inr c"
    and s: "extract_sections U (content self) = Inr s"
    and d: "parse_sections U s
              ((with_name (split_nl (content self)) (resume_data self))\<lparr> contact := c \<rparr>) = Inr d"
  shows "parse U self = Inr (d, self\<lparr> resume_data := d \<rparr>)"
proof (cases "split_nl (content self)")
  case Nil
  with c s d show ?thesis
    by (simp add: parse_def extract_all_sections_def with_name_def)
next
  case (Cons l ls)
  then have ix: "index (split_nl (content self)) 0 = Inr l"
    by (simp add: index_def)
  show ?thesis
  proof (cases "strip l = []")
    case True
    with Cons ix c s d show ?thesis
      by (simp add: parse_def extract_all_sections_def with_name_def)
  next
    case False
    with Cons ix c s d show ?thesis
      by (simp add: parse_def extract_all_sections_def with_name_def)
  qed
qed

lemma parse_total_aux:
  "\<exists>c s d. extract_contact_info U (contact (resume_data self))
                (slice (split_nl (content self)) 0 10) = Inr c
         \<and> fst ` set c \<subseteq> {''email'', ''phone'', ''location''} \<union> fst ` set (contact (resume_data self))
         \<and> extract_sections U (content self) = Inr s
         \<and> parse_sections U s
              ((with_name (split_nl (content self)) (resume_data self))\<lparr> contact := c \<rparr>) = Inr d
         \<and> parse U self = Inr (d, self\<lparr> resume_data := d \<rparr>)"
proof -
  obtain c where c: "extract_contact_info U (contact (resume_data self))
                (slice (split_nl (content self)) 0 10) = Inr c"
    and k: "fst ` set c \<subseteq> {''email'', ''phone'', ''location''} \<union> fst ` set (contact (resume_data self))"
    using extract_contact_info_keys [of U "contact (resume_data self)" "slice (split_nl (content self)) 0 10"]
    by (elim exE conjE)
  obtain s where s: "extract_sections U (content self) = Inr s"
    using extract_sections_total [of U "content self"] by (elim exE)
  obtain d where d: "parse_sections U s
              ((with_name (split_nl (content self)) (resume_data self))\<lparr> contact := c \<rparr>) = Inr d"
    by (simp add: parse_sections_eq)
  from parse_steps [OF c s d] c k s d show ?thesis by (intro exI conjI)
qed


lemma parse_same_record:
  assumes "content a = content b" and "resume_data a = resume_data b"
  shows "and_then (parse U a) (\<lambda>r. Inr (fst r)) = and_then (parse U b) (\<lambda>r. Inr (fst r))"
proof -
  obtain c s d where c: "extract_contact_info U (contact (resume_data a))
                (slice (split_nl (content a)) 0 10) = Inr c"
    and s: "extract_sections U (content a) = Inr s"
    and d: "parse_sections U s
              ((with_name (split_nl (content a)) (resume_data a))\<lparr> contact := c \<rparr>) = Inr d"
    and p: "parse U a = Inr (d, a\<lparr> resume_data := d \<rparr>)"
    using parse_total_aux [of U a] by (elim exE conjE)
  from c s d assms have "parse U b = Inr (d, b\<lparr> resume_data := d \<rparr>)"
    by (intro parse_steps) simp_all
  with p show ?thesis by simp
qed

section \<open>The claims about \<open>parse\<close> as a whole\<close>

text \<open>
  C8: for every input text, and every state of the parser object, \<open>parse\<close> returns a
  record: no subscript of a list, no lookup in a dictionary and no \<open>group\<close> of a match
  raises, whatever the lines look like, and the one \<open>while\<close> loop ends. The value
  \<open>Inl\<close> of the model is a raised exception.
\<close>

theorem C8_parse_total: "\<exists>r self'. parse U self = Inr (r, self')"
  using parse_total_aux [of U self] by (elim exE conjE) (intro exI)

text \<open>
  C9: two parsers, each fresh from \<open>__init__\<close> (for any file names) and loaded with the same
  text, return the same record.
\<close>

theorem C9_parse_deterministic: "parse_text U file1 text = parse_text U file2 text"
  unfolding parse_text_def
  by (rule parse_same_record) (simp_all add: load_content_def init_def)

text \<open>
  C10: the contact mapping of the record that a fresh parser returns has no key other
  than \<open>email\<close>, \<open>phone\<close> and \<open>location\<close>; in particular never \<open>linkedin\<close>.
\<close>

theorem C10_contact_keys:
  "\<exists>r. parse_text U file text = Inr r \<and>
       fst ` set (contact r) \<subseteq> {''email'', ''phone'', ''location''}"
proof -
  let ?self = "load_content (init file) text"
  obtain c s d where k: "fst ` set c \<subseteq> {''email'', ''phone'', ''location''} \<union> fst ` set (contact (resume_data ?self))"
    and d: "parse_sections U s
              ((with_name (split_nl (content ?self)) (resume_data ?self))\<lparr> contact := c \<rparr>) = Inr d"
    and p: "parse U ?self = Inr (d, ?self\<lparr> resume_data := d \<rparr>)"
    using parse_total_aux [of U ?self] by (elim exE conjE)
  have "contact d = c"
    using parse_sections_contact(1) [OF d] by simp
  moreover have "contact (resume_data ?self) = []"
    by (simp add: load_content_def init_def)
  ultimately have "fst ` set (contact d) \<subseteq> {''email'', ''phone'', ''location''}"
    using k by simp
  moreover have "parse_text U file text = Inr d"
    by (simp add: parse_text_def p)
  ultimately show ?thesis by (intro exI conjI)
qed

section \<open>Certifications and awards\<close>

lemma split_on_no_sep: "list_all (\<lambda>c. \<not> d c) x \<Longrightarrow> split_on d x = [x]"
  by (induction x) simp_all

lemma split_on_sep:
  "list_all (\<lambda>c. \<not> d c) x \<Longrightarrow> d c0 \<Longrightarrow> split_on d (x @ c0 # r) = x # split_on d r"
  by (induction x) simp_all

lemma split_on_not_Nil [simp]: "split_on d s \<noteq> []"
  by (induction s) (simp_all split: list.splits)

lemma split_join_nl:
  "list_all (\<lambda>l. 10 \<notin> set l) ls \<Longrightarrow> split_nl (join_nl ls) = (if ls = [] then [[]] else ls)"
proof (induction "[10::nat]" ls rule: join.induct)
  case 1
  show ?case by (simp add: split_nl_def join_nl_def)
next
  case (2 x)
  then have "list_all (\<lambda>c. \<not> c = 10) x" by (auto simp: list_all_iff)
  then show ?case by (simp add: split_nl_def join_nl_def split_on_no_sep)
next
  case (3 x y ys)
  then have "list_all (\<lambda>c. \<not> c = 10) x" by (auto simp: list_all_iff)
  then have "split_on (\<lambda>c. c = 10) (x @ 10 # join [10] (y # ys)) = x # split_on (\<lambda>c. c = 10) (join [10] (y # ys))"
    by (rule split_on_sep) simp
  with 3 show ?case by (simp add: split_nl_def join_nl_def)
qed

lemma strip_Nil [simp]: "strip [] = []"
  by (simp add: strip_def)

lemma startswith_Nil_bullet [simp]: "\<not> startswith [] bullet"
  by (simp add: startswith_def bullet_def)

lemma cert_step_blank [simp]: "cert_step st [] = st"
  by (cases st) (simp add: cert_step_def)

lemma award_step_blank [simp]: "award_step st [] = st"
  by (cases st) (simp add: award_step_def)




















section \<open>Skills\<close>

lemma append_only_iff:
  "append_only b a \<longleftrightarrow>
   (\<forall>k old. map_of b k = Some old \<longrightarrow> (\<exists>new. map_of a k = Some new \<and> take (length old) new = old))"
proof
  assume ao: "append_only b a"
  show "\<forall>k old. map_of b k = Some old \<longrightarrow> (\<exists>new. map_of a k = Some new \<and> take (length old) new = old)"
  proof (intro allI impI)
    fix k old
    assume m: "map_of b k = Some old"
    then have "k \<in> set (map fst b)"
      by (metis map_of_eq_None_iff option.distinct(1) set_map)
    with ao have "case map_of b k of None \<Rightarrow> True
                     | Some old \<Rightarrow> (case map_of a k of
                                      None \<Rightarrow> False
                                    | Some new \<Rightarrow> take (length old) new = old)"
      unfolding append_only_def list_all_iff by blast
    with m show "\<exists>new. map_of a k = Some new \<and> take (length old) new = old"
      by (simp split: option.splits)
  qed
next
  assume "\<forall>k old. map_of b k = Some old \<longrightarrow> (\<exists>new. map_of a k = Some new \<and> take (length old) new = old)"
  then show "append_only b a"
    unfolding append_only_def list_all_iff
    by (fastforce split: option.splits)
qed

lemma append_only_refl: "append_only sk sk"
  by (simp add: append_only_iff)

lemma append_only_trans: "append_only a b \<Longrightarrow> append_only b c \<Longrightarrow> append_only a c"
  unfolding append_only_iff
  by (metis append_eq_conv_conj append_take_drop_id append.assoc)

lemma append_only_new_key: "map_of sk cc = None \<Longrightarrow> append_only sk (AList.update cc [] sk)"
  by (auto simp: append_only_iff update_conv')

lemma append_only_append:
  "map_of sk cc = Some old \<Longrightarrow> append_only sk (AList.update cc (old @ [x]) sk)"
  by (auto simp: append_only_iff update_conv')

lemma add_skills_append_only:
  "map_of sk cc \<noteq> None \<Longrightarrow> add_skills sk cc ps = Inr sk' \<Longrightarrow> append_only sk sk'"
proof (induction ps arbitrary: sk)
  case Nil
  then show ?case by (simp add: append_only_refl)
next
  case (Cons p ps)
  show ?case
  proof (cases "strip p = []")
    case True
    with Cons show ?thesis by simp
  next
    case False
    from Cons.prems obtain old where old: "map_of sk cc = Some old" by auto
    let ?sk1 = "AList.update cc (old @ [strip p]) sk"
    have "map_of ?sk1 cc \<noteq> None"
      by (simp add: update_conv')
    moreover from Cons.prems False old have "add_skills ?sk1 cc ps = Inr sk'"
      by (simp add: getitem_def)
    ultimately have "append_only ?sk1 sk'" by (rule Cons.IH)
    with append_only_append [OF old] show ?thesis by (rule append_only_trans)
  qed
qed

lemma skills_step_header:
  "endswith (strip raw) [58] \<Longrightarrow>
   skills_step (sk, cc) raw =
     Inr (AList.update (strip (butlast (strip raw))) [] sk, strip (butlast (strip raw)))"
  by (auto simp: skills_step_def Let_def endswith_def)

lemma skills_step_plain:
  assumes "\<not> endswith (strip raw) [58]"
  shows "\<exists>sk'. skills_step (sk, cc) raw = Inr (sk', cc) \<and> append_only sk sk'"
proof (cases "strip raw = []")
  case True
  then show ?thesis by (simp add: skills_step_def append_only_refl)
next
  case False
  let ?sk1 = "if map_of sk cc = None then AList.update cc [] sk else sk"
  have k: "map_of ?sk1 cc \<noteq> None"
    by (simp add: update_conv')
  have a1: "append_only sk ?sk1"
    by (simp add: append_only_refl append_only_new_key)
  obtain sk' where sk': "add_skills ?sk1 cc (split_on (\<lambda>c. c = 44 \<or> c = 124) (strip raw)) = Inr sk'"
    using add_skills_total [OF k] by blast
  have "append_only ?sk1 sk'"
    using k sk' by (rule add_skills_append_only)
  with a1 have "append_only sk sk'" by (rule append_only_trans)
  moreover from False assms sk' have "skills_step (sk, cc) raw = Inr (sk', cc)"
    by (simp add: skills_step_def Let_def)
  ultimately show ?thesis by blast
qed

text \<open>
  C3, as the code has it: every line of the SKILLS section is processed without an
  exception. A line that does not end in a colon leaves the current category as it is and
  only adds: every category is still there afterwards, with its earlier skills first in
  its list. A line that ends in a colon makes the text before the colon the current
  category and assigns that category the empty list, also when the category had skills
  already; the lists of all other categories stay as they are.
\<close>

theorem C3_skills_grow_between_headers:
  "\<exists>sk' cc'. skills_step (sk, cc) raw = Inr (sk', cc')
     \<and> (\<not> endswith (strip raw) [58] \<longrightarrow> cc' = cc \<and> append_only sk sk')
     \<and> (endswith (strip raw) [58] \<longrightarrow>
          cc' = strip (butlast (strip raw)) \<and> map_of sk' cc' = Some []
          \<and> (\<forall>k. k \<noteq> cc' \<longrightarrow> map_of sk' k = map_of sk k))"
proof (cases "endswith (strip raw) [58]")
  case True
  then show ?thesis
    by (simp add: skills_step_header update_conv')
next
  case False
  with skills_step_plain [OF False, of sk cc] show ?thesis by auto
qed

theorem C3_counterexample:
  "skills_loop ([], lit ''General'') [lit ''Languages:'', lit ''Python''] =
     Inr ([(lit ''Languages'', [lit ''Python''])], lit ''Languages'')
   \<and> skills_step ([(lit ''Languages'', [lit ''Python''])], lit ''Languages'') (lit ''Languages:'') =
     Inr ([(lit ''Languages'', [])], lit ''Languages'')
   \<and> \<not> append_only [(lit ''Languages'', [lit ''Python''])] [(lit ''Languages'', [])]
   \<and> parse_skills (join_nl [lit ''Languages:'', lit ''Python'', lit ''Languages:'']) =
     Inr [(lit ''Languages'', [])]"
proof -
  have s1: "skills_step ([], lit ''General'') (lit ''Languages:'') = Inr ([(lit ''Languages'', [])], lit ''Languages'')"
    by (simp add: skills_step_def Let_def lit_def strip_def isspace_def endswith_def)
  have s2: "skills_step ([(lit ''Languages'', [])], lit ''Languages'') (lit ''Python'') =
     Inr ([(lit ''Languages'', [lit ''Python''])], lit ''Languages'')"
    by (simp add: skills_step_def Let_def lit_def strip_def isspace_def endswith_def getitem_def)
  have s3: "skills_step ([(lit ''Languages'', [lit ''Python''])], lit ''Languages'') (lit ''Languages:'') =
     Inr ([(lit ''Languages'', [])], lit ''Languages'')"
    by (simp add: skills_step_def Let_def lit_def strip_def isspace_def endswith_def)
  have n: "\<not> append_only [(lit ''Languages'', [lit ''Python''])] [(lit ''Languages'', [])]"
    by (simp add: append_only_def lit_def)
  have sp: "split_nl (join_nl [lit ''Languages:'', lit ''Python'', lit ''Languages:'']) =
     [lit ''Languages:'', lit ''Python'', lit ''Languages:'']"
    by (simp add: split_join_nl lit_def)
  show ?thesis
    by (simp add: parse_skills_def sp s1 s2 s3 n)
qed

theorem C3_witness:
  "\<not> endswith (strip (lit ''Go, Rust'')) [58]
   \<and> (\<exists>sk'. skills_step ([(lit ''Languages'', [lit ''Python''])], lit ''Languages'') (lit ''Go, Rust'')
              = Inr (sk', lit ''Languages'')
            \<and> append_only [(lit ''Languages'', [lit ''Python''])] sk')
   \<and> endswith (strip (lit ''Tools:'')) [58]
   \<and> (\<exists>sk'. skills_step ([(lit ''Languages'', [lit ''Python''])], lit ''Languages'') (lit ''Tools:'')
              = Inr (sk', lit ''Tools'')
            \<and> map_of sk' (lit ''Tools'') = Some []
            \<and> map_of sk' (lit ''Languages'') = Some [lit ''Python''])"
proof -
  have h1: "\<not> endswith (strip (lit ''Go, Rust'')) [58]"
    by (simp add: lit_def strip_def isspace_def endswith_def)
  have h2: "endswith (strip (lit ''Tools:'')) [58]"
    by (simp add: lit_def strip_def isspace_def endswith_def)
  have t: "strip (butlast (strip (lit ''Tools:''))) = lit ''Tools''"
    by (simp add: lit_def strip_def isspace_def)
  have ne: "lit ''Languages'' \<noteq> lit ''Tools''"
    by (simp add: lit_def)
  have m: "map_of [(lit ''Languages'', [lit ''Python''])] (lit ''Languages'') = Some [lit ''Python'']"
    by simp
  from C3_skills_grow_between_headers
         [of "[(lit ''Languages'', [lit ''Python''])]" "lit ''Languages''" "lit ''Go, Rust''"]
       C3_skills_grow_between_headers
         [of "[(lit ''Languages'', [lit ''Python''])]" "lit ''Languages''" "lit ''Tools:''"]
       h1 h2 t ne m
  show ?thesis
    by (metis (no_types, lifting))
qed

section \<open>Experience\<close>

lemma kind_acme_first: "exp_kind U exp_init (lit ''Acme Corp'') = Slot"
  by (simp add: exp_kind_def startswith_def bullet_def is_date_range_def date_re_def one_def
        match_at_def run_len_def isdigit_def truthy_def exp_init_def lit_def count_char_def)

lemma kind_senior_engineer: "truthy (company st) \<Longrightarrow> exp_kind U st (lit ''Senior Engineer'') = Slot"
  by (simp add: exp_kind_def startswith_def bullet_def is_date_range_def date_re_def one_def
        match_at_def run_len_def isdigit_def split_ws_def strip_def isspace_def lit_def count_char_def)

lemma kind_date_present: "exp_kind U st (lit ''01/2020 - present'') = DateRange"
  by (simp add: exp_kind_def startswith_def bullet_def is_date_range_def date_re_def one_def
        match_at_def run_len_def isdigit_def lower_def lit_def)

lemma kind_beta_inc: "truthy (company st) \<Longrightarrow> exp_kind U st (lit ''Beta Inc'') = Slot"
  by (simp add: exp_kind_def startswith_def bullet_def is_date_range_def date_re_def one_def
        match_at_def run_len_def isdigit_def split_ws_def strip_def isspace_def lit_def count_char_def)

lemma kind_engineer: "exp_kind U st (lit ''Engineer'') = Slot"
  by (simp add: exp_kind_def startswith_def bullet_def is_date_range_def date_re_def one_def
        match_at_def run_len_def isdigit_def split_ws_def strip_def isspace_def lit_def count_char_def)

lemma kind_beta_three_words: "truthy (company st) \<Longrightarrow> exp_kind U st (lit ''Beta Incorporated Ltd'') = NewJob"
  by (simp add: exp_kind_def startswith_def bullet_def is_date_range_def date_re_def one_def
        match_at_def run_len_def isdigit_def split_ws_def strip_def isspace_def lit_def count_char_def)

lemma kind_dot_built: "truthy (company st) \<Longrightarrow> exp_kind U st (8226 # lit '' Built the thing'') = NewJob"
  by (simp add: exp_kind_def startswith_def bullet_def is_date_range_def date_re_def one_def
        match_at_def run_len_def isdigit_def split_ws_def strip_def isspace_def lit_def count_char_def)

lemma kind_dot_shipped: "truthy (company st) \<Longrightarrow> exp_kind U st (8226 # lit '' Shipped the other thing'') = NewJob"
  by (simp add: exp_kind_def startswith_def bullet_def is_date_range_def date_re_def one_def
        match_at_def run_len_def isdigit_def split_ws_def strip_def isspace_def lit_def count_char_def)

lemma kind_two_dates: "exp_kind U st (lit ''1/2020 - 6/2021'') = DateRange \<and> re_search (date_re U) (lit ''1/2020 - 6/2021'') = None"
  by (simp add: exp_kind_def startswith_def bullet_def is_date_range_def date_re_def one_def
        match_at_def run_len_def isdigit_def lit_def count_char_def)

lemma strip_fixed:
  "strip (lit ''Acme Corp'') = lit ''Acme Corp''"
  "strip (lit ''Senior Engineer'') = lit ''Senior Engineer''"
  "strip (lit ''01/2020 - present'') = lit ''01/2020 - present''"
  "strip (lit ''Beta Inc'') = lit ''Beta Inc''"
  "strip (lit ''Engineer'') = lit ''Engineer''"
  "strip (lit ''Beta Incorporated Ltd'') = lit ''Beta Incorporated Ltd''"
  "strip (8226 # lit '' Built the thing'') = 8226 # lit '' Built the thing''"
  "strip (8226 # lit '' Shipped the other thing'') = 8226 # lit '' Shipped the other thing''"
  by (simp_all add: strip_def isspace_def lit_def)

lemma lit_nonempty:
  "lit ''Acme Corp'' \<noteq> []" "lit ''Senior Engineer'' \<noteq> []" "lit ''Beta Incorporated Ltd'' \<noteq> []"
  "lit ''Beta Inc'' \<noteq> []"
  by (simp_all add: lit_def)

lemma no_nl:
  "10 \<notin> set (lit ''Acme Corp'')" "10 \<notin> set (lit ''Senior Engineer'')"
  "10 \<notin> set (lit ''01/2020 - present'')" "10 \<notin> set (lit ''Beta Inc'')"
  "10 \<notin> set (lit ''Engineer'')" "10 \<notin> set (lit ''Beta Incorporated Ltd'')"
  "10 \<notin> set (8226 # lit '' Built the thing'')" "10 \<notin> set (8226 # lit '' Shipped the other thing'')"
  by (simp_all add: lit_def)


lemma kind_marked: "exp_kind U st (bullet @ lit '' Built the thing'') = Bullet"
  "exp_kind U st (bullet @ lit '' Shipped the other thing'') = Bullet"
  by (simp_all add: exp_kind_def startswith_def bullet_def)

lemma strip_marked:
  "strip (bullet @ lit '' Built the thing'') = bullet @ lit '' Built the thing''"
  "strip (bullet @ lit '' Shipped the other thing'') = bullet @ lit '' Shipped the other thing''"
  "strip (drop 1 (bullet @ lit '' Built the thing'')) = 196 # 162 # lit '' Built the thing''"
  "strip (drop 1 (bullet @ lit '' Shipped the other thing'')) = 196 # 162 # lit '' Shipped the other thing''"
  "10 \<notin> set (bullet @ lit '' Built the thing'')"
  "10 \<notin> set (bullet @ lit '' Shipped the other thing'')"
  by (simp_all add: strip_def isspace_def lit_def bullet_def)

lemma no_nl_tail:
  "10 \<notin> set (lit '' Built the thing'')" "10 \<notin> set (lit '' Shipped the other thing'')"
  "10 \<notin> set bullet"
  by (simp_all add: lit_def bullet_def)

lemma kind_acme_not_date: "exp_kind U st (lit ''Acme Corp'') \<noteq> DateRange"
  by (simp add: exp_kind_def startswith_def bullet_def is_date_range_def date_re_def one_def
        match_at_def run_len_def isdigit_def lit_def count_char_def)

text \<open>
  C1, as the code has it and without the bullet lines: the EXPERIENCE section of the five
  lines \<open>Acme Corp\<close>, \<open>Senior Engineer\<close>, \<open>01/2020 - present\<close>, \<open>Beta Inc\<close>,
  \<open>Engineer\<close> gives one job, Acme Corp with its position and period and no description.
  The line \<open>Beta Inc\<close> has two words, and only a line of more than two words starts a
  new job once a company is set; company and position are both taken, so the last two
  lines are dropped. With a company line of three words, \<open>Beta Incorporated Ltd\<close>, there
  are the two jobs, the second with position \<open>Engineer\<close>, no period and no description.
\<close>

theorem C1_experience_example:
  "parse_experience U (join_nl [lit ''Acme Corp'', lit ''Senior Engineer'', lit ''01/2020 - present'',
       lit ''Beta Inc'', lit ''Engineer'']) =
     Inr [\<lparr> job_company = lit ''Acme Corp'', job_position = lit ''Senior Engineer'',
            job_period = lit ''01/2020 - present'', job_description = [] \<rparr>]
   \<and> parse_experience U (join_nl [lit ''Acme Corp'', lit ''Senior Engineer'', lit ''01/2020 - present'',
       lit ''Beta Incorporated Ltd'', lit ''Engineer'']) =
     Inr [\<lparr> job_company = lit ''Acme Corp'', job_position = lit ''Senior Engineer'',
            job_period = lit ''01/2020 - present'', job_description = [] \<rparr>,
          \<lparr> job_company = lit ''Beta Incorporated Ltd'', job_position = lit ''Engineer'',
            job_period = [], job_description = [] \<rparr>]"
proof -
  let ?s1 = "exp_init\<lparr> company := Some (lit ''Acme Corp'') \<rparr>"
  let ?s2 = "?s1\<lparr> position := Some (lit ''Senior Engineer'') \<rparr>"
  let ?s3 = "?s2\<lparr> period := Some (lit ''01/2020 - present'') \<rparr>"
  let ?j = "\<lparr> job_company = lit ''Acme Corp'', job_position = lit ''Senior Engineer'',
            job_period = lit ''01/2020 - present'', job_description = [] \<rparr>"
  let ?t1 = "\<lparr> company = Some (lit ''Beta Incorporated Ltd''), position = None, period = None,
              description = [], experience_entries = [?j] \<rparr>"
  let ?t2 = "\<lparr> company = Some (lit ''Beta Incorporated Ltd''), position = Some (lit ''Engineer''),
              period = None, description = [], experience_entries = [?j] \<rparr>"
  have e1: "exp_step U exp_init (lit ''Acme Corp'') = ?s1"
    by (simp add: exp_step_def kind_acme_first) (simp add: exp_init_def truthy_def)
  have e2: "exp_step U ?s1 (lit ''Senior Engineer'') = ?s2"
    by (simp add: exp_step_def kind_senior_engineer truthy_def lit_nonempty exp_init_def)
  have e3: "exp_step U ?s2 (lit ''01/2020 - present'') = ?s3"
    by (simp add: exp_step_def kind_date_present)
  have e4: "exp_step U ?s3 (lit ''Beta Inc'') = ?s3"
    by (simp add: exp_step_def kind_beta_inc truthy_def lit_nonempty)
  have e5: "exp_step U ?s3 (lit ''Engineer'') = ?s3"
    by (simp add: exp_step_def kind_engineer truthy_def lit_nonempty)
  have f: "exp_finish ?s3 = [?j]"
    by (simp add: exp_finish_def truthy_def lit_nonempty current_job_def or_empty_def exp_init_def)
  have c: "current_job ?s3 = ?j"
    by (simp add: current_job_def or_empty_def exp_init_def)
  have e6: "exp_step U ?s3 (lit ''Beta Incorporated Ltd'') = ?t1"
    by (simp add: exp_step_def kind_beta_three_words truthy_def lit_nonempty c) (simp add: exp_init_def)
  have e7: "exp_step U ?t1 (lit ''Engineer'') = ?t2"
    by (simp add: exp_step_def kind_engineer truthy_def lit_nonempty)
  have g: "exp_finish ?t2 = [?j, \<lparr> job_company = lit ''Beta Incorporated Ltd'',
            job_position = lit ''Engineer'', job_period = [], job_description = [] \<rparr>]"
    by (simp add: exp_finish_def truthy_def lit_nonempty current_job_def or_empty_def)
  have a: "parse_experience U (join_nl [lit ''Acme Corp'', lit ''Senior Engineer'',
       lit ''01/2020 - present'', lit ''Beta Inc'', lit ''Engineer'']) = Inr [?j]"
    by (simp add: parse_experience_fold split_join_nl no_nl strip_fixed e1 e2 e3 e4 e5 f)
  have b: "parse_experience U (join_nl [lit ''Acme Corp'', lit ''Senior Engineer'',
       lit ''01/2020 - present'', lit ''Beta Incorporated Ltd'', lit ''Engineer'']) =
     Inr [?j, \<lparr> job_company = lit ''Beta Incorporated Ltd'',
            job_position = lit ''Engineer'', job_period = [], job_description = [] \<rparr>]"
    by (simp add: parse_experience_fold split_join_nl no_nl strip_fixed e1 e2 e3 e6 e7 g)
  from a b show ?thesis by (rule conjI)
qed

theorem C1_counterexample:
  "parse_experience ascii_db (join_nl [lit ''Acme Corp'', lit ''Senior Engineer'',
       lit ''01/2020 - present'', 8226 # lit '' Built the thing'',
       8226 # lit '' Shipped the other thing'', lit ''Beta Inc'', lit ''Engineer'']) =
     Inr [\<lparr> job_company = lit ''Acme Corp'', job_position = lit ''Senior Engineer'',
            job_period = lit ''01/2020 - present'', job_description = [] \<rparr>,
          \<lparr> job_company = 8226 # lit '' Built the thing'', job_position = [],
            job_period = [], job_description = [] \<rparr>,
          \<lparr> job_company = 8226 # lit '' Shipped the other thing'', job_position = lit ''Beta Inc'',
            job_period = [], job_description = [] \<rparr>]
   \<and> parse_experience ascii_db (join_nl [lit ''Acme Corp'', lit ''Senior Engineer'',
       lit ''01/2020 - present'', bullet @ lit '' Built the thing'',
       bullet @ lit '' Shipped the other thing'', lit ''Beta Inc'', lit ''Engineer'']) =
     Inr [\<lparr> job_company = lit ''Acme Corp'', job_position = lit ''Senior Engineer'',
            job_period = lit ''01/2020 - present'',
            job_description = [196 # 162 # lit '' Built the thing'',
                               196 # 162 # lit '' Shipped the other thing''] \<rparr>]
   \<and> parse_experience ascii_db (join_nl [lit ''Acme Corp'', lit ''Senior Engineer'',
       lit ''01/2020 - present'', 8226 # lit '' Built the thing'',
       8226 # lit '' Shipped the other thing'', lit ''Beta Inc'', lit ''Engineer'']) \<noteq>
     Inr [\<lparr> job_company = lit ''Acme Corp'', job_position = lit ''Senior Engineer'',
            job_period = lit ''01/2020 - present'',
            job_description = [lit ''Built the thing'', lit ''Shipped the other thing''] \<rparr>,
          \<lparr> job_company = lit ''Beta Inc'', job_position = lit ''Engineer'',
            job_period = [], job_description = [] \<rparr>]"
proof -
  let ?U = ascii_db
  let ?s1 = "exp_init\<lparr> company := Some (lit ''Acme Corp'') \<rparr>"
  let ?s2 = "?s1\<lparr> position := Some (lit ''Senior Engineer'') \<rparr>"
  let ?s3 = "?s2\<lparr> period := Some (lit ''01/2020 - present'') \<rparr>"
  let ?j = "\<lparr> job_company = lit ''Acme Corp'', job_position = lit ''Senior Engineer'',
            job_period = lit ''01/2020 - present'', job_description = [] \<rparr>"
  let ?j2 = "\<lparr> job_company = 8226 # lit '' Built the thing'', job_position = [],
            job_period = [], job_description = [] \<rparr>"
  let ?t1 = "\<lparr> company = Some (8226 # lit '' Built the thing''), position = None, period = None,
              description = [], experience_entries = [?j] \<rparr>"
  let ?t2 = "\<lparr> company = Some (8226 # lit '' Shipped the other thing''), position = None,
              period = None, description = [], experience_entries = [?j, ?j2] \<rparr>"
  let ?t3 = "\<lparr> company = Some (8226 # lit '' Shipped the other thing''),
              position = Some (lit ''Beta Inc''), period = None, description = [],
              experience_entries = [?j, ?j2] \<rparr>"
  let ?d1 = "?s3\<lparr> description := [196 # 162 # lit '' Built the thing''] \<rparr>"
  let ?d2 = "?s3\<lparr> description := [196 # 162 # lit '' Built the thing'',
                                    196 # 162 # lit '' Shipped the other thing''] \<rparr>"
  have e1: "exp_step ?U exp_init (lit ''Acme Corp'') = ?s1"
    by (simp add: exp_step_def kind_acme_first) (simp add: exp_init_def truthy_def)
  have e2: "exp_step ?U ?s1 (lit ''Senior Engineer'') = ?s2"
    by (simp add: exp_step_def kind_senior_engineer truthy_def lit_nonempty exp_init_def)
  have e3: "exp_step ?U ?s2 (lit ''01/2020 - present'') = ?s3"
    by (simp add: exp_step_def kind_date_present)
  have c: "current_job ?s3 = ?j"
    by (simp add: current_job_def or_empty_def exp_init_def)
  have e4: "exp_step ?U ?s3 (8226 # lit '' Built the thing'') = ?t1"
    by (simp add: exp_step_def kind_dot_built truthy_def lit_nonempty c) (simp add: exp_init_def)
  have c2: "current_job ?t1 = ?j2"
    by (simp add: current_job_def or_empty_def)
  have e5: "exp_step ?U ?t1 (8226 # lit '' Shipped the other thing'') = ?t2"
    by (simp add: exp_step_def kind_dot_shipped truthy_def c2)
  have e6: "exp_step ?U ?t2 (lit ''Beta Inc'') = ?t3"
    by (simp add: exp_step_def kind_beta_inc truthy_def)
  have e7: "exp_step ?U ?t3 (lit ''Engineer'') = ?t3"
    by (simp add: exp_step_def kind_engineer truthy_def lit_nonempty)
  have f: "exp_finish ?t3 = [?j, ?j2,
          \<lparr> job_company = 8226 # lit '' Shipped the other thing'', job_position = lit ''Beta Inc'',
            job_period = [], job_description = [] \<rparr>]"
    by (simp add: exp_finish_def truthy_def current_job_def or_empty_def)
  have a: "parse_experience ?U (join_nl [lit ''Acme Corp'', lit ''Senior Engineer'',
       lit ''01/2020 - present'', 8226 # lit '' Built the thing'',
       8226 # lit '' Shipped the other thing'', lit ''Beta Inc'', lit ''Engineer'']) =
     Inr [?j, ?j2,
          \<lparr> job_company = 8226 # lit '' Shipped the other thing'', job_position = lit ''Beta Inc'',
            job_period = [], job_description = [] \<rparr>]"
    by (simp add: parse_experience_fold split_join_nl no_nl no_nl_tail strip_fixed e1 e2 e3 e4 e5 e6 e7 f)
  have b1: "exp_step ?U ?s3 (bullet @ lit '' Built the thing'') = ?d1"
    by (simp add: exp_step_def kind_marked) (simp add: bullet_def lit_def strip_def isspace_def exp_init_def)
  have b2: "exp_step ?U ?d1 (bullet @ lit '' Shipped the other thing'') = ?d2"
    by (simp add: exp_step_def kind_marked) (simp add: bullet_def lit_def strip_def isspace_def)
  have b3: "exp_step ?U ?d2 (lit ''Beta Inc'') = ?d2"
    by (simp add: exp_step_def kind_beta_inc truthy_def lit_nonempty)
  have b4: "exp_step ?U ?d2 (lit ''Engineer'') = ?d2"
    by (simp add: exp_step_def kind_engineer truthy_def lit_nonempty)
  have g: "exp_finish ?d2 = [\<lparr> job_company = lit ''Acme Corp'', job_position = lit ''Senior Engineer'',
            job_period = lit ''01/2020 - present'',
            job_description = [196 # 162 # lit '' Built the thing'',
                               196 # 162 # lit '' Shipped the other thing''] \<rparr>]"
    by (simp add: exp_finish_def truthy_def lit_nonempty current_job_def or_empty_def exp_init_def)
  have b: "parse_experience ?U (join_nl [lit ''Acme Corp'', lit ''Senior Engineer'',
       lit ''01/2020 - present'', bullet @ lit '' Built the thing'',
       bullet @ lit '' Shipped the other thing'', lit ''Beta Inc'', lit ''Engineer'']) =
     Inr [\<lparr> job_company = lit ''Acme Corp'', job_position = lit ''Senior Engineer'',
            job_period = lit ''01/2020 - present'',
            job_description = [196 # 162 # lit '' Built the thing'',
                               196 # 162 # lit '' Shipped the other thing''] \<rparr>]"
    by (simp add: parse_experience_fold split_join_nl no_nl no_nl_tail strip_fixed strip_marked
          e1 e2 e3 b1 b2 b3 b4 g)
  from a have c: "parse_experience ?U (join_nl [lit ''Acme Corp'', lit ''Senior Engineer'',
       lit ''01/2020 - present'', 8226 # lit '' Built the thing'',
       8226 # lit '' Shipped the other thing'', lit ''Beta Inc'', lit ''Engineer'']) \<noteq>
     Inr [\<lparr> job_company = lit ''Acme Corp'', job_position = lit ''Senior Engineer'',
            job_period = lit ''01/2020 - present'',
            job_description = [lit ''Built the thing'', lit ''Shipped the other thing''] \<rparr>,
          \<lparr> job_company = lit ''Beta Inc'', job_position = lit ''Engineer'',
            job_period = [], job_description = [] \<rparr>]"
    by simp
  from a b c show ?thesis by (intro conjI)
qed

text \<open>
  C2, as the code has it: a line that is not blank and does not start with the bullet
  marker takes the date-range branch exactly when it has an \<open>MM/YYYY\<close> substring and
  contains \<open>present\<close> in any case, or it has a hyphen and at least two slashes (with or
  without an \<open>MM/YYYY\<close> substring). The branch sets the period to the line and changes
  nothing else; every other branch leaves the period as it was or resets it.
\<close>

theorem C2_date_range_branch:
  assumes "line \<noteq> []" and "\<not> startswith line bullet"
  shows "(exp_kind U st line = DateRange \<longleftrightarrow>
            (re_search (date_re U) line \<noteq> None \<and> contains (lower U line) (lit ''present''))
            \<or> (45 \<in> set line \<and> 2 \<le> count_char line 47))
       \<and> (exp_kind U st line = DateRange \<longrightarrow> exp_step U st line = st\<lparr> period := Some line \<rparr>)
       \<and> (exp_kind U st line \<noteq> DateRange \<longrightarrow>
            period (exp_step U st line) = None \<or> period (exp_step U st line) = period st)"
  using assms
  by (auto simp: exp_kind_def exp_step_def is_date_range_def)

theorem C2_counterexample:
  "exp_kind ascii_db exp_init (lit ''1/2020 - 6/2021'') = DateRange
   \<and> exp_step ascii_db exp_init (lit ''1/2020 - 6/2021'') =
       exp_init\<lparr> period := Some (lit ''1/2020 - 6/2021'') \<rparr>
   \<and> re_search (date_re ascii_db) (lit ''1/2020 - 6/2021'') = None
   \<and> \<not> date_range_as_specified ascii_db (lit ''1/2020 - 6/2021'')"
  by (simp add: exp_step_def kind_two_dates date_range_as_specified_def)

theorem C2_witness:
  "lit ''01/2020 - present'' \<noteq> [] \<and> \<not> startswith (lit ''01/2020 - present'') bullet
   \<and> exp_kind ascii_db exp_init (lit ''01/2020 - present'') = DateRange
   \<and> exp_step ascii_db exp_init (lit ''01/2020 - present'') =
       exp_init\<lparr> period := Some (lit ''01/2020 - present'') \<rparr>
   \<and> lit ''Acme Corp'' \<noteq> [] \<and> \<not> startswith (lit ''Acme Corp'') bullet
   \<and> exp_kind ascii_db exp_init (lit ''Acme Corp'') \<noteq> DateRange
   \<and> (period (exp_step ascii_db exp_init (lit ''Acme Corp'')) = None
      \<or> period (exp_step ascii_db exp_init (lit ''Acme Corp'')) = period exp_init)"
proof -
  have h1: "lit ''01/2020 - present'' \<noteq> [] \<and> \<not> startswith (lit ''01/2020 - present'') bullet"
    by (simp add: lit_def startswith_def bullet_def)
  have h2: "lit ''Acme Corp'' \<noteq> [] \<and> \<not> startswith (lit ''Acme Corp'') bullet"
    by (simp add: lit_def startswith_def bullet_def)
  from h1 h2 kind_date_present [of ascii_db exp_init] kind_acme_not_date [of ascii_db exp_init]
    C2_date_range_branch [of "lit ''01/2020 - present''" ascii_db exp_init]
    C2_date_range_branch [of "lit ''Acme Corp''" ascii_db exp_init]
  show ?thesis by blast
qed

section \<open>The contact block, line by line\<close>

lemma strip_last_not_space: "strip s \<noteq> [] \<Longrightarrow> \<not> isspace (last (strip s))"
proof -
  assume ne: "strip s \<noteq> []"
  let ?r = "dropWhile isspace (rev (dropWhile isspace s))"
  from ne have r: "?r \<noteq> []" by (simp add: strip_def)
  then have "\<not> isspace (hd ?r)" by (rule hd_dropWhile)
  moreover from r have "last (strip s) = hd ?r"
    by (simp add: strip_def last_rev)
  ultimately show ?thesis by simp
qed

lemma at_dollar_strip: "at_dollar (strip s) n \<longleftrightarrow> n = length (strip s)"
proof (cases "strip s = []")
  case True
  then show ?thesis by (simp add: at_dollar_def)
next
  case False
  then have "\<not> isspace (last (strip s))" by (rule strip_last_not_space)
  moreover have "isspace 10" by (simp add: isspace_def)
  ultimately have "last (strip s) \<noteq> 10" by metis
  have "\<not> (Suc n = length (strip s) \<and> strip s ! n = 10)"
  proof
    assume a: "Suc n = length (strip s) \<and> strip s ! n = 10"
    then have "length (strip s) - 1 = n" by arith
    with False have "last (strip s) = strip s ! n" by (simp add: last_conv_nth)
    with a \<open>last (strip s) \<noteq> 10\<close> show False by simp
  qed
  then show ?thesis
    by (auto simp: at_dollar_def)
qed

lemma anchored_strip:
  "re_search_anchored p (strip s) = Some g \<Longrightarrow> g = strip s"
proof -
  assume a: "re_search_anchored p (strip s) = Some g"
  then obtain n ns where f: "filter (at_dollar (strip s)) (ends p (strip s)) = n # ns"
    and g: "g = take n (strip s)"
    by (auto simp: re_search_anchored_def split: list.splits)
  from f have "n \<in> set (filter (at_dollar (strip s)) (ends p (strip s)))" by simp
  then have "at_dollar (strip s) n" by simp
  then have "n = length (strip s)" by (simp add: at_dollar_strip)
  with g show ?thesis by simp
qed

lemma location_loop_find:
  "location_loop c ls =
     Inr (case find (\<lambda>l. re_search_anchored location_re (strip l) \<noteq> None) ls of
            None \<Rightarrow> c
          | Some l \<Rightarrow> AList.update ''location'' (strip l) c)"
proof (induction ls)
  case Nil
  show ?case by simp
next
  case (Cons l ls)
  show ?case
  proof (cases "re_search_anchored location_re (strip l)")
    case None
    with Cons show ?thesis by simp
  next
    case (Some g)
    then have "g = strip l" by (rule anchored_strip)
    with Some show ?thesis by simp
  qed
qed

lemma re_search_leftmost:
  "re_search p s = Some g \<Longrightarrow>
   \<exists>i n. i \<le> length s \<and> match_at p (drop i s) = Some n \<and> g = take n (drop i s)
        \<and> (\<forall>j<i. match_at p (drop j s) = None)"
proof (induction s)
  case Nil
  then show ?case by (auto split: option.splits)
next
  case (Cons c cs)
  show ?case
  proof (cases "match_at p (c # cs)")
    case (Some n)
    with Cons.prems have "g = take n (c # cs)" by simp
    with Some show ?thesis by (intro exI [of _ 0] exI [of _ n]) simp
  next
    case None
    with Cons.prems have "re_search p cs = Some g" by simp
    from Cons.IH [OF this] obtain i n where i: "i \<le> length cs"
      and m: "match_at p (drop i cs) = Some n" and g: "g = take n (drop i cs)"
      and l: "\<forall>j<i. match_at p (drop j cs) = None" by blast
    have "\<forall>j<Suc i. match_at p (drop j (c # cs)) = None"
    proof (intro allI impI)
      fix j assume "j < Suc i"
      with None l show "match_at p (drop j (c # cs)) = None"
        by (cases j) simp_all
    qed
    with i m g show ?thesis
      by (intro exI [of _ "Suc i"] exI [of _ n]) simp
  qed
qed

lemma extract_contact_info_fresh:
  "extract_contact_info U [] top_lines =
     Inr ((case re_search (email_re U) (join_nl top_lines) of None \<Rightarrow> [] | Some g \<Rightarrow> [(''email'', g)])
          @ (case re_search (phone_re U) (join_nl top_lines) of None \<Rightarrow> [] | Some g \<Rightarrow> [(''phone'', g)])
          @ (case find (\<lambda>l. re_search_anchored location_re (strip l) \<noteq> None) top_lines of
               None \<Rightarrow> [] | Some l \<Rightarrow> [(''location'', strip l)]))"
  by (simp add: extract_contact_info_def Let_def location_loop_find split: option.splits)

























section \<open>The scan for the section headers\<close>

lemma mark_fold:
  "foldl (\<lambda>hs header. if line = header then AList.update header i hs else hs) hs ks =
   (if line \<in> set ks then AList.update line i hs else hs)"
proof (induction ks arbitrary: hs)
  case Nil
  show ?case by simp
next
  case (Cons k ks)
  show ?case by (simp add: Cons.IH update_last)
qed

lemma mark_headers_eq:
  "mark_headers U hs (i, raw) =
   (if upper U (strip raw) \<in> fst ` set hs then AList.update (upper U (strip raw)) i hs else hs)"
  by (simp add: mark_headers_def Let_def mark_fold)

lemma mark_headers_keys: "map fst (mark_headers U hs il) = map fst hs"
  by (cases il) (simp add: mark_headers_eq update_keys)

lemma mark_headers_lookup:
  "map_of (mark_headers U hs (i, raw)) h =
   (if h = upper U (strip raw) \<and> h \<in> fst ` set hs then Some i else map_of hs h)"
  by (auto simp: mark_headers_eq update_conv')

lemma enumerate_from0_snoc:
  "enumerate_from0 (xs @ [x]) = enumerate_from0 xs @ [(int (length xs), x)]"
  by (simp add: enumerate_from0_def)

lemma find_headers_snoc:
  "find_headers U (lines @ [l]) = mark_headers U (find_headers U lines) (int (length lines), l)"
  by (simp add: find_headers_def enumerate_from0_snoc)

lemma find_headers_keys: "map fst (find_headers U lines) = map fst section_headers_init"
proof (induction lines rule: rev_induct)
  case Nil
  show ?case by (simp add: find_headers_def enumerate_from0_def)
next
  case (snoc l lines)
  then show ?case by (simp add: find_headers_snoc mark_headers_keys)
qed

lemma find_headers_dom: "fst ` set (find_headers U lines) = fst ` set section_headers_init"
  using find_headers_keys [of U lines] by (metis set_map)

lemma find_headers_absent:
  assumes "h \<in> fst ` set section_headers_init"
    and "list_all (\<lambda>l. upper U (strip l) \<noteq> h) lines"
  shows "map_of (find_headers U lines) h = Some (- 1)"
  using assms(2)
proof (induction lines rule: rev_induct)
  case Nil
  from assms(1) show ?case
    by (auto simp: find_headers_def enumerate_from0_def section_headers_init_def)
next
  case (snoc l lines)
  then show ?case
    by (auto simp: find_headers_snoc mark_headers_lookup)
qed

lemma find_headers_last:
  assumes "h \<in> fst ` set section_headers_init"
    and "i < length lines" and "upper U (strip (lines ! i)) = h"
    and "list_all (\<lambda>l. upper U (strip l) \<noteq> h) (drop (Suc i) lines)"
  shows "map_of (find_headers U lines) h = Some (int i)"
  using assms(2-4)
proof (induction lines rule: rev_induct)
  case Nil
  then show ?case by simp
next
  case (snoc l lines)
  show ?case
  proof (cases "i = length lines")
    case True
    with snoc.prems assms(1) show ?thesis
      by (simp add: find_headers_snoc mark_headers_lookup find_headers_dom)
  next
    case False
    with snoc.prems have i: "i < length lines" by simp
    with snoc.prems have "upper U (strip (lines ! i)) = h"
      by (simp add: nth_append)
    moreover from snoc.prems i have "list_all (\<lambda>l. upper U (strip l) \<noteq> h) (drop (Suc i) lines)"
      and "upper U (strip l) \<noteq> h"
      by simp_all
    ultimately show ?thesis
      using snoc.IH i by (simp add: find_headers_snoc mark_headers_lookup)
  qed
qed

lemma find_headers_range:
  "map_of (find_headers U lines) h = Some p \<Longrightarrow> - 1 \<le> p \<and> p < int (length lines)"
proof (induction lines arbitrary: p rule: rev_induct)
  case Nil
  then show ?case
    by (auto simp: find_headers_def enumerate_from0_def section_headers_init_def split: if_splits)
next
  case (snoc l lines)
  then show ?case
    by (fastforce simp: find_headers_snoc mark_headers_lookup split: if_splits)
qed

section \<open>The spans of the sections\<close>

lemma sections_loop_fold:
  "\<forall>e \<in> set rest. 0 \<le> fst e \<Longrightarrow>
   sections_loop lines hl rest s =
     Inr (foldl (\<lambda>acc e. AList.update (snd (snd e))
                   (span lines (fst (snd e) + 1) (end_of hl lines (fst e))) acc) s rest)"
proof (induction rest arbitrary: s)
  case Nil
  show ?case by simp
next
  case (Cons e rest)
  obtain k pos h where e: "e = (k, pos, h)" by (cases e) auto
  with Cons.prems have k0: "0 \<le> k" by simp
  have en: "(if k < int (length hl) - 1
            then (case index hl (k + 1) of Inl x \<Rightarrow> Inl x | Inr nxt \<Rightarrow> Inr (fst nxt))
            else Inr (int (length lines))) = Inr (end_of hl lines k)"
    using k0 by (simp add: index_in_range end_of_def)
  from Cons.prems have "\<forall>e \<in> set rest. 0 \<le> fst e" by simp
  from Cons.IH [OF this] show ?case
    by (simp add: e en span_def Let_def)
qed

lemma fold_update_other:
  "h \<notin> (\<lambda>e. snd (snd e)) ` set rest \<Longrightarrow>
   map_of (foldl (\<lambda>acc e. AList.update (snd (snd e)) (f e) acc) s rest) h = map_of s h"
  by (induction rest arbitrary: s) (auto simp: update_conv')

lemma fold_update_member:
  "distinct (map (\<lambda>e. snd (snd e)) rest) \<Longrightarrow> e \<in> set rest \<Longrightarrow>
   map_of (foldl (\<lambda>acc e. AList.update (snd (snd e)) (f e) acc) s rest) (snd (snd e)) = Some (f e)"
proof (induction rest arbitrary: s)
  case Nil
  then show ?case by simp
next
  case (Cons e0 rest)
  show ?case
  proof (cases "e = e0")
    case True
    with Cons.prems have "snd (snd e) \<notin> (\<lambda>e. snd (snd e)) ` set rest" by auto
    with True show ?thesis by (simp add: fold_update_other update_conv')
  next
    case False
    with Cons.prems have "e \<in> set rest" and "distinct (map (\<lambda>e. snd (snd e)) rest)" by auto
    with Cons.IH show ?thesis by simp
  qed
qed

lemma fold_update_distinct:
  "distinct (map fst s) \<Longrightarrow>
   distinct (map fst (foldl (\<lambda>acc e. AList.update (snd (snd e)) (f e) acc) s rest))"
  by (induction rest arbitrary: s) (simp_all add: distinct_update)

lemma set_headers_list:
  "set (headers_list hs) = {(pos, h). (h, pos) \<in> set hs \<and> 0 \<le> pos}"
  by (auto simp: headers_list_def)

lemma distinct_snd_sort:
  fixes xs :: "(int \<times> pystr) list"
  shows "distinct (map snd xs) \<Longrightarrow> distinct (map snd (sort xs))"
  by (simp add: distinct_map)

lemma distinct_headers_list:
  assumes "distinct (map fst hs)"
  shows "distinct (map snd (headers_list hs))"
proof -
  let ?xs = "map (\<lambda>(header, pos). (pos, header)) (filter (\<lambda>(header, pos). 0 \<le> pos) hs)"
  have m: "map snd ?xs = map fst (filter (\<lambda>(header, pos). 0 \<le> pos) hs)"
    by (induction hs) auto
  from assms have "distinct (map fst (filter (\<lambda>(header, pos). 0 \<le> pos) hs))"
    by (induction hs) (auto simp: image_iff)
  then have "distinct (map snd ?xs)" by (simp only: m)
  then have "distinct (map snd (sort ?xs))" by (rule distinct_snd_sort)
  then show ?thesis by (simp only: headers_list_def)
qed

lemma distinct_init_keys: "distinct (map fst section_headers_init)"
  by (simp add: section_headers_init_def lit_def)

lemma enumerate_from0_mem:
  "k < length xs \<Longrightarrow> (int k, xs ! k) \<in> set (enumerate_from0 xs)"
  unfolding enumerate_from0_def set_zip
  by (rule CollectI, rule exI [of _ k]) simp

lemma enumerate_from0_snd: "map snd (enumerate_from0 xs) = xs"
  by (simp add: enumerate_from0_def)

lemma extract_sections_eq:
  "extract_sections U text =
     Inr (foldl (\<lambda>acc e. AList.update (snd (snd e))
                   (span (split_nl text) (fst (snd e) + 1)
                      (end_of (headers_list (find_headers U (split_nl text))) (split_nl text) (fst e)))
                   acc)
            [] (enumerate_from0 (headers_list (find_headers U (split_nl text)))))"
  by (simp add: extract_sections_def Let_def sections_loop_fold enumerate_from0_nonneg)

lemma enumerate_third:
  "map (\<lambda>e. snd (snd e)) (enumerate_from0 xs) = map snd xs"
proof -
  have "map (\<lambda>e. snd (snd e)) (enumerate_from0 xs) = map snd (map snd (enumerate_from0 xs))"
    by simp
  then show ?thesis by (simp only: enumerate_from0_snd)
qed

lemma extract_sections_absent:
  assumes "extract_sections U text = Inr s"
    and "map_of (find_headers U (split_nl text)) h = Some (- 1)"
  shows "map_of s h = None"
proof -
  let ?hl = "headers_list (find_headers U (split_nl text))"
  have d: "distinct (map fst (find_headers U (split_nl text)))"
    by (simp add: find_headers_keys distinct_init_keys)
  have "h \<notin> snd ` set ?hl"
  proof
    assume "h \<in> snd ` set ?hl"
    then obtain pos where "(pos, h) \<in> set ?hl" by auto
    then have "(h, pos) \<in> set (find_headers U (split_nl text))" and "0 \<le> pos"
      by (simp_all add: set_headers_list)
    with d have "map_of (find_headers U (split_nl text)) h = Some pos" by simp
    with assms(2) \<open>0 \<le> pos\<close> show False by simp
  qed
  then have "h \<notin> (\<lambda>e. snd (snd e)) ` set (enumerate_from0 ?hl)"
    using enumerate_third [of ?hl] by (metis set_map)
  then have "map_of (foldl (\<lambda>acc e. AList.update (snd (snd e))
                   (span (split_nl text) (fst (snd e) + 1) (end_of ?hl (split_nl text) (fst e)))
                   acc) [] (enumerate_from0 ?hl)) h = map_of [] h"
    by (rule fold_update_other)
  with assms(1) show ?thesis
    by (simp add: extract_sections_eq)
qed

lemma extract_sections_present:
  assumes "extract_sections U text = Inr s"
    and "map_of (find_headers U (split_nl text)) h = Some p" and "0 \<le> p"
  shows "\<exists>k. k < length (headers_list (find_headers U (split_nl text)))
            \<and> headers_list (find_headers U (split_nl text)) ! k = (p, h)
            \<and> map_of s h = Some (span (split_nl text) (p + 1)
                 (end_of (headers_list (find_headers U (split_nl text))) (split_nl text) (int k)))"
proof -
  let ?hl = "headers_list (find_headers U (split_nl text))"
  have d: "distinct (map fst (find_headers U (split_nl text)))"
    by (simp add: find_headers_keys distinct_init_keys)
  from assms(2) have "(h, p) \<in> set (find_headers U (split_nl text))"
    by (rule map_of_SomeD)
  with assms(3) have "(p, h) \<in> set ?hl" by (simp add: set_headers_list)
  then obtain k where k: "k < length ?hl" and n: "?hl ! k = (p, h)"
    by (auto simp: in_set_conv_nth)
  then have mem: "(int k, p, h) \<in> set (enumerate_from0 ?hl)"
    using enumerate_from0_mem [of k ?hl] by simp
  have "distinct (map (\<lambda>e. snd (snd e)) (enumerate_from0 ?hl))"
    by (simp only: enumerate_third distinct_headers_list [OF d])
  from fold_update_member [OF this mem,
      of "\<lambda>e. span (split_nl text) (fst (snd e) + 1) (end_of ?hl (split_nl text) (fst e))" "[]"]
    assms(1)
  have "map_of s h = Some (span (split_nl text) (p + 1) (end_of ?hl (split_nl text) (int k)))"
    by (simp add: extract_sections_eq)
  with k n show ?thesis by blast
qed

lemma extract_sections_distinct:
  "extract_sections U text = Inr s \<Longrightarrow> distinct (map fst s)"
  by (auto simp: extract_sections_eq intro: fold_update_distinct)

lemma find_headers_pos_line:
  "map_of (find_headers U lines) h = Some p \<Longrightarrow> 0 \<le> p \<Longrightarrow> upper U (strip (lines ! nat p)) = h"
proof (induction lines arbitrary: p rule: rev_induct)
  case Nil
  then show ?case
    by (auto simp: find_headers_def enumerate_from0_def section_headers_init_def split: if_splits)
next
  case (snoc l lines)
  show ?case
  proof (cases "h = upper U (strip l) \<and> h \<in> fst ` set (find_headers U lines)")
    case True
    then have hl: "h = upper U (strip l)" and hm: "upper U (strip l) \<in> fst ` set (find_headers U lines)"
      by blast+
    have "map_of (find_headers U (lines @ [l])) h = Some (int (length lines))"
      unfolding find_headers_snoc mark_headers_lookup hl using hm by simp
    with snoc.prems have "p = int (length lines)" by simp
    with True show ?thesis by simp
  next
    case False
    then have "map_of (find_headers U (lines @ [l])) h = map_of (find_headers U lines) h"
      unfolding find_headers_snoc mark_headers_lookup by (rule if_not_P)
    with snoc.prems have old: "map_of (find_headers U lines) h = Some p" by simp
    then have "p < int (length lines)" using find_headers_range by blast
    with snoc.prems have "nat p < length lines" by simp
    with snoc.IH [OF old snoc.prems(2)] show ?thesis by (simp add: nth_append)
  qed
qed

lemma headers_list_entry:
  assumes "k < length (headers_list (find_headers U lines))"
  shows "map_of (find_headers U lines) (snd (headers_list (find_headers U lines) ! k)) =
           Some (fst (headers_list (find_headers U lines) ! k))
       \<and> 0 \<le> fst (headers_list (find_headers U lines) ! k)"
proof -
  let ?hl = "headers_list (find_headers U lines)"
  have d: "distinct (map fst (find_headers U lines))"
    by (simp add: find_headers_keys distinct_init_keys)
  from assms have "?hl ! k \<in> set ?hl" by simp
  then have "(snd (?hl ! k), fst (?hl ! k)) \<in> set (find_headers U lines) \<and> 0 \<le> fst (?hl ! k)"
    by (auto simp: set_headers_list)
  with d show ?thesis by simp
qed

lemma end_of_after:
  assumes "k < length (headers_list (find_headers U lines))"
  shows "fst (headers_list (find_headers U lines) ! k) <
           end_of (headers_list (find_headers U lines)) lines (int k)
       \<and> end_of (headers_list (find_headers U lines)) lines (int k) \<le> int (length lines)"
proof (cases "Suc k < length (headers_list (find_headers U lines))")
  case False
  have "fst (headers_list (find_headers U lines) ! k) < int (length lines)"
    using headers_list_entry [OF assms] find_headers_range by blast
  with False show ?thesis by (simp add: end_of_def)
next
  case True
  let ?hl = "headers_list (find_headers U lines)"
  let ?a = "?hl ! k" and ?b = "?hl ! Suc k"
  have e: "end_of ?hl lines (int k) = fst ?b"
    using True by (simp add: end_of_def nat_add_distrib)
  have a: "map_of (find_headers U lines) (snd ?a) = Some (fst ?a)" "0 \<le> fst ?a"
    using headers_list_entry [OF assms] by simp_all
  have b: "map_of (find_headers U lines) (snd ?b) = Some (fst ?b)" "0 \<le> fst ?b"
    using headers_list_entry [OF True] by simp_all
  have "sorted ?hl" by (simp add: headers_list_def)
  with True have "?a \<le> ?b" by (simp add: sorted_iff_nth_Suc)
  then have le: "fst ?a \<le> fst ?b"
    by (cases ?a, cases ?b) (auto simp: less_eq_prod_def)
  have "fst ?a \<noteq> fst ?b"
  proof
    assume eq: "fst ?a = fst ?b"
    have "upper U (strip (lines ! nat (fst ?a))) = snd ?a"
      using a by (rule find_headers_pos_line)
    moreover have "upper U (strip (lines ! nat (fst ?b))) = snd ?b"
      using b by (rule find_headers_pos_line)
    ultimately have "snd ?a = snd ?b" using eq by simp
    moreover have "distinct (map snd ?hl)"
      by (rule distinct_headers_list) (simp add: find_headers_keys distinct_init_keys)
    ultimately have "k = Suc k"
      using True assms by (simp add: distinct_conv_nth)
    then show False by simp
  qed
  with le have "fst ?a < fst ?b" by simp
  moreover have "fst ?b < int (length lines)"
    using b find_headers_range by blast
  ultimately show ?thesis by (simp add: e)
qed

text \<open>
  C4: when the last line of the document that is a given section header (after stripping
  and upper-casing) is line \<open>i\<close>, whatever occurrences of the header come before it,
  the segmenter records \<open>i\<close> for the header, and the one section it makes for the header
  starts at line \<open>i + 1\<close>: its text is the non-blank lines from \<open>i + 1\<close> up to the line of
  the next header in the sorted list of recorded headers, or up to the end of the
  document. That end lies after line \<open>i\<close>. The segmenter returns one entry for each
  header, so the earlier occurrences make no section.
\<close>

theorem C4_last_header_wins:
  assumes "h \<in> fst ` set section_headers_init"
    and "i < length (split_nl text)"
    and "upper U (strip (split_nl text ! i)) = h"
    and "list_all (\<lambda>l. upper U (strip l) \<noteq> h) (drop (Suc i) (split_nl text))"
  shows "map_of (find_headers U (split_nl text)) h = Some (int i)
     \<and> (\<exists>s k. extract_sections U text = Inr s \<and> distinct (map fst s)
           \<and> k < length (headers_list (find_headers U (split_nl text)))
           \<and> headers_list (find_headers U (split_nl text)) ! k = (int i, h)
           \<and> map_of s h = Some (span (split_nl text) (int i + 1)
                (end_of (headers_list (find_headers U (split_nl text))) (split_nl text) (int k)))
           \<and> int i < end_of (headers_list (find_headers U (split_nl text))) (split_nl text) (int k)
           \<and> end_of (headers_list (find_headers U (split_nl text))) (split_nl text) (int k)
               \<le> int (length (split_nl text)))"
proof -
  let ?lines = "split_nl text"
  let ?hl = "headers_list (find_headers U ?lines)"
  have p: "map_of (find_headers U ?lines) h = Some (int i)"
    using assms by (rule find_headers_last)
  obtain s where s: "extract_sections U text = Inr s"
    using extract_sections_total [of U "text"] by (elim exE)
  from extract_sections_present [OF s p]
  obtain k where k: "k < length ?hl" and n: "?hl ! k = (int i, h)"
    and m: "map_of s h = Some (span ?lines (int i + 1) (end_of ?hl ?lines (int k)))"
    by auto
  from end_of_after [OF k] n
  have "int i < end_of ?hl ?lines (int k)" and "end_of ?hl ?lines (int k) \<le> int (length ?lines)"
    by simp_all
  with p s k n m extract_sections_distinct [OF s] show ?thesis by blast
qed

lemma upper_lit:
  "upper U (lit ''Jane'') = lit ''JANE''"
  "upper U (lit ''EXPERIENCE'') = lit ''EXPERIENCE''"
  "upper U (lit ''Old Co'') = lit ''OLD CO''"
  "upper U (lit ''experience'') = lit ''EXPERIENCE''"
  "upper U (lit ''New Co'') = lit ''NEW CO''"
  by (simp_all add: upper_def lit_def)

lemma strip_lit:
  "strip (lit ''Jane'') = lit ''Jane''"
  "strip (lit ''EXPERIENCE'') = lit ''EXPERIENCE''"
  "strip (lit ''Old Co'') = lit ''Old Co''"
  "strip (lit ''experience'') = lit ''experience''"
  "strip (lit ''New Co'') = lit ''New Co''"
  by (simp_all add: strip_def char_eval lit_def)

lemma twice_lines:
  "split_nl (join_nl [lit ''Jane'', lit ''EXPERIENCE'', lit ''Old Co'', lit ''experience'', lit ''New Co'']) =
     [lit ''Jane'', lit ''EXPERIENCE'', lit ''Old Co'', lit ''experience'', lit ''New Co'']"
  by (simp add: split_join_nl lit_def)

lemma header_neq:
  "lit ''JANE'' \<notin> fst ` set section_headers_init"
  "lit ''OLD CO'' \<notin> fst ` set section_headers_init"
  "lit ''NEW CO'' \<notin> fst ` set section_headers_init"
  "lit ''EXPERIENCE'' \<in> fst ` set section_headers_init"
  "lit ''NEW CO'' \<noteq> lit ''EXPERIENCE''"
  by (simp_all add: section_headers_init_def lit_def)

lemma init_unfold:
  "section_headers_init = (lit ''SUMMARY'', - 1) # (lit ''EXPERIENCE'', - 1) #
     [(lit ''EDUCATION'', - 1), (lit ''CERTIFICATIONS'', - 1), (lit ''SKILLS'', - 1),
      (lit ''HONORS AND AWARDS'', - 1)]"
  by (simp add: section_headers_init_def)

lemma summary_neq: "lit ''SUMMARY'' \<noteq> lit ''EXPERIENCE''"
  by (simp add: lit_def)

lemma update_experience:
  "AList.update (lit ''EXPERIENCE'') q ((lit ''SUMMARY'', s) # (lit ''EXPERIENCE'', p) # rest) =
     (lit ''SUMMARY'', s) # (lit ''EXPERIENCE'', q) # rest"
  using summary_neq by simp

lemma keys_experience:
  "fst ` set ((lit ''SUMMARY'', s) # (lit ''EXPERIENCE'', p) # rest) =
   fst ` set ((lit ''SUMMARY'', s) # (lit ''EXPERIENCE'', q) # rest)"
  by simp


lemma twice_headers:
  "find_headers U [lit ''Jane'', lit ''EXPERIENCE'', lit ''Old Co'', lit ''experience'', lit ''New Co''] =
     (lit ''SUMMARY'', - 1) # (lit ''EXPERIENCE'', 3) #
     [(lit ''EDUCATION'', - 1), (lit ''CERTIFICATIONS'', - 1), (lit ''SKILLS'', - 1),
      (lit ''HONORS AND AWARDS'', - 1)]"
proof -
  let ?rest = "[(lit ''EDUCATION'', - 1 :: int), (lit ''CERTIFICATIONS'', - 1), (lit ''SKILLS'', - 1),
      (lit ''HONORS AND AWARDS'', - 1)]"
  let ?H = "\<lambda>p. (lit ''SUMMARY'', - 1 :: int) # (lit ''EXPERIENCE'', p) # ?rest"
  have e: "enumerate_from0 [lit ''Jane'', lit ''EXPERIENCE'', lit ''Old Co'', lit ''experience'', lit ''New Co'']
    = [(0, lit ''Jane''), (1, lit ''EXPERIENCE''), (2, lit ''Old Co''), (3, lit ''experience''), (4, lit ''New Co'')]"
    by (simp add: enumerate_from0_def upt_rec)
  have kH: "fst ` set (?H p) = fst ` set section_headers_init" for p
    unfolding init_unfold by (rule keys_experience)
  have non: "mark_headers U (?H p) (i, raw) = ?H p"
    if "upper U (strip raw) \<notin> fst ` set section_headers_init" for raw i p
    unfolding mark_headers_eq kH using that by (rule if_not_P)
  have hdr: "mark_headers U (?H p) (i, raw) = ?H i"
    if "upper U (strip raw) = lit ''EXPERIENCE''" for raw i p
    unfolding mark_headers_eq kH that update_experience using header_neq(4) by (rule if_P)
  have s0: "mark_headers U (?H (- 1)) (0, lit ''Jane'') = ?H (- 1)"
    by (rule non) (simp only: strip_lit upper_lit header_neq not_False_eq_True)
  have s1: "mark_headers U (?H (- 1)) (1, lit ''EXPERIENCE'') = ?H 1"
    by (rule hdr) (simp only: strip_lit upper_lit)
  have s2: "mark_headers U (?H 1) (2, lit ''Old Co'') = ?H 1"
    by (rule non) (simp only: strip_lit upper_lit header_neq not_False_eq_True)
  have s3: "mark_headers U (?H 1) (3, lit ''experience'') = ?H 3"
    by (rule hdr) (simp only: strip_lit upper_lit)
  have s4: "mark_headers U (?H 3) (4, lit ''New Co'') = ?H 3"
    by (rule non) (simp only: strip_lit upper_lit header_neq not_False_eq_True)
  show ?thesis
    unfolding find_headers_def e init_unfold foldl.simps s0 s1 s2 s3 s4 ..
qed


lemma twice_sections:
  "extract_sections U
     (join_nl [lit ''Jane'', lit ''EXPERIENCE'', lit ''Old Co'', lit ''experience'', lit ''New Co'']) =
   Inr [(lit ''EXPERIENCE'', lit ''New Co'')]"
proof -
  let ?lines = "[lit ''Jane'', lit ''EXPERIENCE'', lit ''Old Co'', lit ''experience'', lit ''New Co'']"
  have hl: "headers_list (find_headers U ?lines) = [(3, lit ''EXPERIENCE'')]"
    unfolding twice_headers by (simp add: headers_list_def)
  have en: "enumerate_from0 [(3 :: int, lit ''EXPERIENCE'')] = [(0, 3, lit ''EXPERIENCE'')]"
    by (simp add: enumerate_from0_def)
  have ne: "strip (lit ''New Co'') \<noteq> []"
    by (simp add: strip_lit) (simp add: lit_def)
  have sp: "span ?lines 4 (end_of [(3, lit ''EXPERIENCE'')] ?lines 0) = lit ''New Co''"
    by (simp add: span_def end_of_def slice_def ne join_nl_def)
  show ?thesis
    unfolding extract_sections_eq twice_lines hl en
    by (simp add: sp)
qed

theorem C4_witness:
  "lit ''EXPERIENCE'' \<in> fst ` set section_headers_init
   \<and> 3 < length (split_nl (join_nl [lit ''Jane'', lit ''EXPERIENCE'', lit ''Old Co'',
                                     lit ''experience'', lit ''New Co'']))
   \<and> upper ascii_db (strip (split_nl (join_nl [lit ''Jane'', lit ''EXPERIENCE'', lit ''Old Co'',
                                     lit ''experience'', lit ''New Co'']) ! 3)) = lit ''EXPERIENCE''
   \<and> list_all (\<lambda>l. upper ascii_db (strip l) \<noteq> lit ''EXPERIENCE'')
         (drop (Suc 3) (split_nl (join_nl [lit ''Jane'', lit ''EXPERIENCE'', lit ''Old Co'',
                                     lit ''experience'', lit ''New Co''])))
   \<and> map_of (find_headers ascii_db (split_nl (join_nl [lit ''Jane'', lit ''EXPERIENCE'',
          lit ''Old Co'', lit ''experience'', lit ''New Co'']))) (lit ''EXPERIENCE'') = Some 3
   \<and> extract_sections ascii_db (join_nl [lit ''Jane'', lit ''EXPERIENCE'', lit ''Old Co'',
          lit ''experience'', lit ''New Co'']) = Inr [(lit ''EXPERIENCE'', lit ''New Co'')]"
proof -
  let ?text = "join_nl [lit ''Jane'', lit ''EXPERIENCE'', lit ''Old Co'', lit ''experience'', lit ''New Co'']"
  have h1: "lit ''EXPERIENCE'' \<in> fst ` set section_headers_init"
    by (rule header_neq)
  have h2: "3 < length (split_nl ?text)"
    by (simp add: twice_lines)
  have h3: "upper ascii_db (strip (split_nl ?text ! 3)) = lit ''EXPERIENCE''"
    by (simp add: twice_lines strip_lit upper_lit)
  have h4: "list_all (\<lambda>l. upper ascii_db (strip l) \<noteq> lit ''EXPERIENCE'') (drop (Suc 3) (split_nl ?text))"
    by (simp add: twice_lines strip_lit upper_lit header_neq)
  from C4_last_header_wins [OF h1 h2 h3 h4]
  have "map_of (find_headers ascii_db (split_nl ?text)) (lit ''EXPERIENCE'') = Some 3"
    by simp
  with h1 h2 h3 h4 twice_sections [of ascii_db] show ?thesis
    by (intro conjI)
qed

section \<open>Absent sections and the name line\<close>

lemma section_or_absent: "map_of s k = None \<Longrightarrow> section_or s k f dflt = dflt"
  by (simp add: section_or_def)

lemma header_absent_section:
  assumes "h \<in> fst ` set section_headers_init"
    and "list_all (\<lambda>l. upper U (strip l) \<noteq> h) (split_nl t)"
    and "extract_sections U t = Inr s"
  shows "map_of s h = None"
  using assms(3) find_headers_absent [OF assms(1) assms(2)] by (rule extract_sections_absent)

lemma init_keys:
  "lit ''SUMMARY'' \<in> fst ` set section_headers_init"
  "lit ''EXPERIENCE'' \<in> fst ` set section_headers_init"
  "lit ''EDUCATION'' \<in> fst ` set section_headers_init"
  "lit ''CERTIFICATIONS'' \<in> fst ` set section_headers_init"
  "lit ''SKILLS'' \<in> fst ` set section_headers_init"
  "lit ''HONORS AND AWARDS'' \<in> fst ` set section_headers_init"
  by (simp_all add: section_headers_init_def)

lemma split_nl_not_Nil [simp]: "split_nl t \<noteq> []"
  by (simp add: split_nl_def)

lemma find_no_match:
  "list_all (\<lambda>l. f l = None) xs \<Longrightarrow> find (\<lambda>l. f l \<noteq> None) xs = None"
  by (induction xs) simp_all

lemma parse_text_eq:
  assumes c: "extract_contact_info U [] (slice (split_nl t) 0 10) = Inr c"
    and s: "extract_sections U t = Inr s"
  shows "parse_text U file t =
     Inr ((with_name (split_nl t) (resume_data (init file)))
            \<lparr> contact := c,
              summary := section_or s (lit ''SUMMARY'') (\<lambda>v. v) [],
              experience := section_or s (lit ''EXPERIENCE'')
                              (\<lambda>v. projr (parse_experience U v)) [],
              education := section_or s (lit ''EDUCATION'') parse_education [],
              certifications := section_or s (lit ''CERTIFICATIONS'') parse_certifications [],
              skills := section_or s (lit ''SKILLS'') (\<lambda>v. projr (parse_skills v)) [],
              honors_awards := section_or s (lit ''HONORS AND AWARDS'') parse_honors_awards [] \<rparr>)"
proof -
  let ?self = "load_content (init file) t"
  let ?d = "(with_name (split_nl t) (resume_data (init file)))\<lparr> contact := c \<rparr>"
  have f: "content ?self = t" "resume_data ?self = resume_data (init file)"
    "contact (resume_data (init file)) = []"
    by (simp_all add: load_content_def init_def)
  have w: "summary (with_name (split_nl t) (resume_data (init file))) = []"
    "experience (with_name (split_nl t) (resume_data (init file))) = []"
    "education (with_name (split_nl t) (resume_data (init file))) = []"
    "certifications (with_name (split_nl t) (resume_data (init file))) = []"
    "skills (with_name (split_nl t) (resume_data (init file))) = []"
    "honors_awards (with_name (split_nl t) (resume_data (init file))) = []"
    by (simp_all add: with_name_def init_def split: list.splits)
  have "parse U ?self = Inr (projr (parse_sections U s ?d),
                             ?self\<lparr> resume_data := projr (parse_sections U s ?d) \<rparr>)"
    by (rule parse_steps) (simp_all add: f c s parse_sections_eq)
  then show ?thesis
    by (simp add: parse_text_def parse_sections_eq w)
qed

text \<open>
  C7, as the code has it: a fresh parser returns a record for every text. Its name is the
  first line stripped, when that is not empty. A field of a section is at its default,
  empty, whenever no line of the text is the header of that section. The contact mapping
  is empty when neither the email nor the phone pattern matches in the first ten lines
  and none of these lines matches the location pattern; the first line, the name, is one
  of the lines that are searched, so a name that matches a pattern is stored as contact.
\<close>

theorem C7_absent_sections_keep_defaults:
  "\<exists>r. parse_text U file t = Inr r
     \<and> (strip (hd (split_nl t)) \<noteq> [] \<longrightarrow> name r = strip (hd (split_nl t)))
     \<and> (re_search (email_re U) (join_nl (slice (split_nl t) 0 10)) = None
          \<and> re_search (phone_re U) (join_nl (slice (split_nl t) 0 10)) = None
          \<and> list_all (\<lambda>l. re_search_anchored location_re (strip l) = None)
                (slice (split_nl t) 0 10)
        \<longrightarrow> contact r = [])
     \<and> (list_all (\<lambda>l. upper U (strip l) \<noteq> lit ''SUMMARY'') (split_nl t) \<longrightarrow> summary r = [])
     \<and> (list_all (\<lambda>l. upper U (strip l) \<noteq> lit ''EXPERIENCE'') (split_nl t)
        \<longrightarrow> experience r = [])
     \<and> (list_all (\<lambda>l. upper U (strip l) \<noteq> lit ''EDUCATION'') (split_nl t)
        \<longrightarrow> education r = [])
     \<and> (list_all (\<lambda>l. upper U (strip l) \<noteq> lit ''CERTIFICATIONS'') (split_nl t)
        \<longrightarrow> certifications r = [])
     \<and> (list_all (\<lambda>l. upper U (strip l) \<noteq> lit ''SKILLS'') (split_nl t) \<longrightarrow> skills r = [])
     \<and> (list_all (\<lambda>l. upper U (strip l) \<noteq> lit ''HONORS AND AWARDS'') (split_nl t)
        \<longrightarrow> honors_awards r = [])"
proof -
  obtain s where s: "extract_sections U t = Inr s"
    using extract_sections_total [of U t] by (elim exE)
  let ?top = "slice (split_nl t) 0 10"
  let ?c = "(case re_search (email_re U) (join_nl ?top) of None \<Rightarrow> [] | Some g \<Rightarrow> [(''email'', g)])
          @ (case re_search (phone_re U) (join_nl ?top) of None \<Rightarrow> [] | Some g \<Rightarrow> [(''phone'', g)])
          @ (case find (\<lambda>l. re_search_anchored location_re (strip l) \<noteq> None) ?top of
               None \<Rightarrow> [] | Some l \<Rightarrow> [(''location'', strip l)])"
  have c: "extract_contact_info U [] ?top = Inr ?c"
    by (rule extract_contact_info_fresh)
  define r where "r = (with_name (split_nl t) (resume_data (init file)))
            \<lparr> contact := ?c,
              summary := section_or s (lit ''SUMMARY'') (\<lambda>v. v) [],
              experience := section_or s (lit ''EXPERIENCE'')
                              (\<lambda>v. projr (parse_experience U v)) [],
              education := section_or s (lit ''EDUCATION'') parse_education [],
              certifications := section_or s (lit ''CERTIFICATIONS'') parse_certifications [],
              skills := section_or s (lit ''SKILLS'') (\<lambda>v. projr (parse_skills v)) [],
              honors_awards := section_or s (lit ''HONORS AND AWARDS'') parse_honors_awards [] \<rparr>"
  have p: "parse_text U file t = Inr r"
    unfolding r_def by (rule parse_text_eq [OF c s])
  have f: "name r = name (with_name (split_nl t) (resume_data (init file)))"
    "contact r = ?c"
    "summary r = section_or s (lit ''SUMMARY'') (\<lambda>v. v) []"
    "experience r = section_or s (lit ''EXPERIENCE'') (\<lambda>v. projr (parse_experience U v)) []"
    "education r = section_or s (lit ''EDUCATION'') parse_education []"
    "certifications r = section_or s (lit ''CERTIFICATIONS'') parse_certifications []"
    "skills r = section_or s (lit ''SKILLS'') (\<lambda>v. projr (parse_skills v)) []"
    "honors_awards r = section_or s (lit ''HONORS AND AWARDS'') parse_honors_awards []"
    by (simp_all add: r_def)
  have nm: "strip (hd (split_nl t)) \<noteq> [] \<longrightarrow> name r = strip (hd (split_nl t))"
    unfolding f by (cases "split_nl t") (simp_all add: with_name_def)
  have ct: "re_search (email_re U) (join_nl ?top) = None
          \<and> re_search (phone_re U) (join_nl ?top) = None
          \<and> list_all (\<lambda>l. re_search_anchored location_re (strip l) = None) ?top
        \<longrightarrow> contact r = []"
    unfolding f by (simp add: find_no_match del: not_None_eq)
  have a1: "list_all (\<lambda>l. upper U (strip l) \<noteq> lit ''SUMMARY'') (split_nl t) \<longrightarrow> summary r = []"
    unfolding f using header_absent_section [OF init_keys(1) _ s] by (simp add: section_or_absent)
  have a2: "list_all (\<lambda>l. upper U (strip l) \<noteq> lit ''EXPERIENCE'') (split_nl t)
        \<longrightarrow> experience r = []"
    unfolding f using header_absent_section [OF init_keys(2) _ s] by (simp add: section_or_absent)
  have a3: "list_all (\<lambda>l. upper U (strip l) \<noteq> lit ''EDUCATION'') (split_nl t)
        \<longrightarrow> education r = []"
    unfolding f using header_absent_section [OF init_keys(3) _ s] by (simp add: section_or_absent)
  have a4: "list_all (\<lambda>l. upper U (strip l) \<noteq> lit ''CERTIFICATIONS'') (split_nl t)
        \<longrightarrow> certifications r = []"
    unfolding f using header_absent_section [OF init_keys(4) _ s] by (simp add: section_or_absent)
  have a5: "list_all (\<lambda>l. upper U (strip l) \<noteq> lit ''SKILLS'') (split_nl t) \<longrightarrow> skills r = []"
    unfolding f using header_absent_section [OF init_keys(5) _ s] by (simp add: section_or_absent)
  have a6: "list_all (\<lambda>l. upper U (strip l) \<noteq> lit ''HONORS AND AWARDS'') (split_nl t)
        \<longrightarrow> honors_awards r = []"
    unfolding f using header_absent_section [OF init_keys(6) _ s] by (simp add: section_or_absent)
  from p nm ct a1 a2 a3 a4 a5 a6 show ?thesis
    by (intro exI [of _ r] conjI)
qed

lemma one_line:
  "split_nl (lit ''Jane Doe'') = [lit ''Jane Doe'']"
  "split_nl (lit ''Smith, John'') = [lit ''Smith, John'']"
  by (simp_all add: split_nl_def lit_def)

lemma one_line_top:
  "slice [l :: pystr] 0 10 = [l]"
  by (simp add: slice_def)

lemma name_strip:
  "strip (lit ''Jane Doe'') = lit ''Jane Doe''"
  "strip (lit ''Smith, John'') = lit ''Smith, John''"
  "lit ''Jane Doe'' \<noteq> []" "lit ''Smith, John'' \<noteq> []"
  by (simp_all add: strip_def char_eval lit_def)

lemma name_upper:
  "upper U (lit ''Jane Doe'') = lit ''JANE DOE''"
  "upper U (lit ''Smith, John'') = lit ''SMITH, JOHN''"
  by (simp_all add: upper_def lit_def)

lemma name_not_header:
  "lit ''JANE DOE'' \<noteq> lit ''SUMMARY''" "lit ''JANE DOE'' \<noteq> lit ''EXPERIENCE''"
  "lit ''JANE DOE'' \<noteq> lit ''EDUCATION''" "lit ''JANE DOE'' \<noteq> lit ''CERTIFICATIONS''"
  "lit ''JANE DOE'' \<noteq> lit ''SKILLS''" "lit ''JANE DOE'' \<noteq> lit ''HONORS AND AWARDS''"
  "lit ''SMITH, JOHN'' \<noteq> lit ''SUMMARY''" "lit ''SMITH, JOHN'' \<noteq> lit ''EXPERIENCE''"
  "lit ''SMITH, JOHN'' \<noteq> lit ''EDUCATION''" "lit ''SMITH, JOHN'' \<noteq> lit ''CERTIFICATIONS''"
  "lit ''SMITH, JOHN'' \<noteq> lit ''SKILLS''" "lit ''SMITH, JOHN'' \<noteq> lit ''HONORS AND AWARDS''"
  by (simp_all add: lit_def)

lemma name_contact:
  "re_search (email_re U) (lit ''Jane Doe'') = None"
  "re_search (phone_re U) (lit ''Jane Doe'') = None"
  "re_search_anchored location_re (lit ''Jane Doe'') = None"
  "re_search (email_re U) (lit ''Smith, John'') = None"
  "re_search (phone_re U) (lit ''Smith, John'') = None"
  "re_search_anchored location_re (lit ''Smith, John'') \<noteq> None"
  by (simp_all add: re_search_anchored_def email_re_def phone_re_def location_re_def re_eval
        char_eval at_dollar_def lit_def del: ends.simps(2))

theorem C7_counterexample:
  "parse_text ascii_db [] (lit ''Smith, John'') =
     Inr \<lparr> name = lit ''Smith, John'', contact = [(''location'', lit ''Smith, John'')],
           summary = [], experience = [], education = [], skills = [], certifications = [],
           honors_awards = [] \<rparr>"
proof -
  let ?U = ascii_db and ?t = "lit ''Smith, John''"
  obtain s where s: "extract_sections ?U ?t = Inr s"
    using extract_sections_total [of ?U ?t] by (elim exE)
  have c: "extract_contact_info ?U [] (slice (split_nl ?t) 0 10) =
             Inr [(''location'', lit ''Smith, John'')]"
    by (simp add: extract_contact_info_fresh one_line one_line_top join_nl_def name_contact
          name_strip)
  have n: "map_of s h = None" if "h \<in> fst ` set section_headers_init"
      and "lit ''SMITH, JOHN'' \<noteq> h" for h
    using that(1) _ s
    by (rule header_absent_section) (simp add: one_line name_strip name_upper that(2))
  have w: "with_name (split_nl ?t) (resume_data (init [])) =
      (resume_data (init []))\<lparr> name := lit ''Smith, John'' \<rparr>"
    by (simp add: with_name_def one_line name_strip)
  show ?thesis
    unfolding parse_text_eq [OF c s] w
    by (simp add: section_or_absent n init_keys name_not_header init_def)
qed

theorem C7_witness:
  "strip (hd (split_nl (lit ''Jane Doe''))) \<noteq> []
   \<and> re_search (email_re ascii_db) (join_nl (slice (split_nl (lit ''Jane Doe'')) 0 10)) = None
   \<and> re_search (phone_re ascii_db) (join_nl (slice (split_nl (lit ''Jane Doe'')) 0 10)) = None
   \<and> list_all (\<lambda>l. re_search_anchored location_re (strip l) = None)
        (slice (split_nl (lit ''Jane Doe'')) 0 10)
   \<and> list_all (\<lambda>l. upper ascii_db (strip l) \<noteq> lit ''SUMMARY'') (split_nl (lit ''Jane Doe''))
   \<and> list_all (\<lambda>l. upper ascii_db (strip l) \<noteq> lit ''EXPERIENCE'') (split_nl (lit ''Jane Doe''))
   \<and> list_all (\<lambda>l. upper ascii_db (strip l) \<noteq> lit ''EDUCATION'') (split_nl (lit ''Jane Doe''))
   \<and> list_all (\<lambda>l. upper ascii_db (strip l) \<noteq> lit ''CERTIFICATIONS'') (split_nl (lit ''Jane Doe''))
   \<and> list_all (\<lambda>l. upper ascii_db (strip l) \<noteq> lit ''SKILLS'') (split_nl (lit ''Jane Doe''))
   \<and> list_all (\<lambda>l. upper ascii_db (strip l) \<noteq> lit ''HONORS AND AWARDS'')
        (split_nl (lit ''Jane Doe''))
   \<and> parse_text ascii_db [] (lit ''Jane Doe'') =
       Inr \<lparr> name = lit ''Jane Doe'', contact = [], summary = [], experience = [],
             education = [], skills = [], certifications = [], honors_awards = [] \<rparr>"
proof -
  let ?U = ascii_db and ?t = "lit ''Jane Doe''"
  have h0: "strip (hd (split_nl ?t)) \<noteq> []"
    by (simp add: one_line name_strip)
  have h1: "re_search (email_re ?U) (join_nl (slice (split_nl ?t) 0 10)) = None"
    and h2: "re_search (phone_re ?U) (join_nl (slice (split_nl ?t) 0 10)) = None"
    and h3: "list_all (\<lambda>l. re_search_anchored location_re (strip l) = None)
        (slice (split_nl ?t) 0 10)"
    by (simp_all add: one_line one_line_top join_nl_def name_contact name_strip)
  have a1: "list_all (\<lambda>l. upper ?U (strip l) \<noteq> lit ''SUMMARY'') (split_nl ?t)"
    and a2: "list_all (\<lambda>l. upper ?U (strip l) \<noteq> lit ''EXPERIENCE'') (split_nl ?t)"
    and a3: "list_all (\<lambda>l. upper ?U (strip l) \<noteq> lit ''EDUCATION'') (split_nl ?t)"
    and a4: "list_all (\<lambda>l. upper ?U (strip l) \<noteq> lit ''CERTIFICATIONS'') (split_nl ?t)"
    and a5: "list_all (\<lambda>l. upper ?U (strip l) \<noteq> lit ''SKILLS'') (split_nl ?t)"
    and a6: "list_all (\<lambda>l. upper ?U (strip l) \<noteq> lit ''HONORS AND AWARDS'') (split_nl ?t)"
    by (simp_all add: one_line name_strip name_upper name_not_header)
  from C7_absent_sections_keep_defaults [of ?U "[]" ?t] h0 h1 h2 h3 a1 a2 a3 a4 a5 a6
  obtain r where p: "parse_text ?U [] ?t = Inr r"
    and f: "name r = strip (hd (split_nl ?t))" "contact r = []" "summary r = []"
      "experience r = []" "education r = []" "certifications r = []" "skills r = []"
      "honors_awards r = []"
    by blast
  from f have "r = \<lparr> name = lit ''Jane Doe'', contact = [], summary = [], experience = [],
             education = [], skills = [], certifications = [], honors_awards = [] \<rparr>"
    by (cases r) (simp add: one_line name_strip)
  with p h0 h1 h2 h3 a1 a2 a3 a4 a5 a6 show ?thesis
    by (intro conjI) simp_all
qed

end
